theory Spec2Isabelle
  imports Complex_Main "HOL-Library.AList" "HOL-Library.Sublist"
begin

section \<open>Python values, strings and exceptions\<close>

text \<open>
  The services of the backend work on plain Python values: the detectors return lists of
  dictionaries, \<^verbatim>\<open>json.loads\<close> returns dictionaries, lists, strings and numbers. A dictionary
  is kept as its list of items (keys are strings, no key twice).
  A Python float is kept as the real number it stands for (a finite float: infinities and
  NaN are outside the model). A float operation returns the float nearest to the exact
  result: this rounding \<open>fl\<close> is a parameter of every function that computes with floats,
  and a decimal literal \<open>d\<close> of the source is the float \<open>fl d\<close>. The statements about
  the functions hold for every \<open>fl\<close>; a float operation never raises.
  Strings are ASCII: \<^verbatim>\<open>str.lower\<close>, \<^verbatim>\<open>str.title\<close> and \<^verbatim>\<open>str.strip\<close> are modelled on the
  letters A-Z, a-z and the ASCII white space.
\<close>

datatype pyval =
    PNone
  | PBool bool
  | PInt int
  | PFloat real
  | PStr string
  | PList "pyval list"
  | PDict "(string \<times> pyval) list"

datatype exn =
    KeyError
  | TypeError
  | AttributeError
  | IndexError
  | OverflowError
  | JSONDecodeError
  | ValidationError
  | APIError

definition upper_letters :: string where
  "upper_letters = ''ABCDEFGHIJKLMNOPQRSTUVWXYZ''"

definition lower_letters :: string where
  "lower_letters = ''abcdefghijklmnopqrstuvwxyz''"

definition lower_char :: "char \<Rightarrow> char" where
  "lower_char c = (case map_of (zip upper_letters lower_letters) c of Some d \<Rightarrow> d | None \<Rightarrow> c)"

definition upper_char :: "char \<Rightarrow> char" where
  "upper_char c = (case map_of (zip lower_letters upper_letters) c of Some d \<Rightarrow> d | None \<Rightarrow> c)"

definition is_cased :: "char \<Rightarrow> bool" where
  "is_cased c = (c \<in> set upper_letters \<or> c \<in> set lower_letters)"

text \<open>\<^verbatim>\<open>s.lower()\<close>\<close>

definition lower :: "string \<Rightarrow> string" where
  "lower s = map lower_char s"

text \<open>
  \<^verbatim>\<open>s.title()\<close>: a letter that follows a letter is lowercased, any other letter is
  uppercased, other characters are kept and start a new word.
\<close>

fun title_from :: "bool \<Rightarrow> string \<Rightarrow> string" where
  "title_from prev [] = []"
| "title_from prev (c # cs) =
     (if is_cased c
      then (if prev then lower_char c else upper_char c) # title_from True cs
      else c # title_from False cs)"

definition title_str :: "string \<Rightarrow> string" where
  "title_str s = title_from False s"

text \<open>\<^verbatim>\<open>sep.join(xs)\<close>\<close>

fun join :: "string \<Rightarrow> string list \<Rightarrow> string" where
  "join sep [] = []"
| "join sep [x] = x"
| "join sep (x # y # ys) = x @ sep @ join sep (y # ys)"

text \<open>\<^verbatim>\<open>s.strip()\<close>, with the white space of \<^verbatim>\<open>str.isspace\<close> below code point 128.\<close>

definition is_space :: "char \<Rightarrow> bool" where
  "is_space c = (c \<in> set [CHR 0x09, CHR 0x0A, CHR 0x0B, CHR 0x0C, CHR 0x0D,
                           CHR 0x1C, CHR 0x1D, CHR 0x1E, CHR 0x1F, CHR 0x20])"

definition strip :: "string \<Rightarrow> string" where
  "strip s = rev (dropWhile is_space (rev (dropWhile is_space s)))"

text \<open>\<^verbatim>\<open>s.startswith(p)\<close>\<close>

definition startswith :: "string \<Rightarrow> string \<Rightarrow> bool" where
  "startswith s p = (take (length p) s = p)"

text \<open>\<^verbatim>\<open>s[a:-b]\<close> for literal \<open>a\<close>, \<open>b\<close>: out-of-range bounds are clamped, never an error.\<close>

definition slice_between :: "nat \<Rightarrow> nat \<Rightarrow> string \<Rightarrow> string" where
  "slice_between a b s = drop a (take (length s - b) s)"

text \<open>\<^verbatim>\<open>v[k]\<close> for a string key: only a dictionary can be subscripted by a string.\<close>

fun getitem :: "pyval \<Rightarrow> string \<Rightarrow> exn + pyval" where
  "getitem (PDict kvs) k = (case map_of kvs k of None \<Rightarrow> Inl KeyError | Some v \<Rightarrow> Inr v)"
| "getitem _ k = Inl TypeError"

text \<open>\<^verbatim>\<open>v.lower()\<close>: only strings have the method.\<close>

fun py_lower :: "pyval \<Rightarrow> exn + string" where
  "py_lower (PStr s) = Inr (lower s)"
| "py_lower _ = Inl AttributeError"

type_synonym rounding = "real \<Rightarrow> real"

text \<open>Arithmetic without rounding, for evaluating the model on concrete inputs.\<close>

definition exact :: rounding where
  "exact x = x"

text \<open>
  \<^verbatim>\<open>float(i)\<close> raises OverflowError when the integer rounds to a value beyond the largest
  float \<open>2^1024 - 2^971\<close>, that is from the midpoint \<open>2^1024 - 2^970\<close> on.
\<close>

definition float_range :: "int \<Rightarrow> bool" where
  "float_range i = (\<bar>i\<bar> < 2 ^ 1024 - 2 ^ 970)"

text \<open>
  The left operand of \<^verbatim>\<open>v * w\<close> as a float: a float is taken as it is, an integer (and a
  boolean, which is an integer) is converted, any other value is a TypeError.
\<close>

fun as_float :: "rounding \<Rightarrow> pyval \<Rightarrow> exn + real" where
  "as_float fl (PFloat x) = Inr x"
| "as_float fl (PInt i) =
     (if float_range i then Inr (fl (real_of_int i)) else Inl OverflowError)"
| "as_float fl (PBool b) = Inr (if b then 1 else 0)"
| "as_float fl _ = Inl TypeError"

text \<open>\<^verbatim>\<open>v * w\<close> for a float \<open>w\<close>: the product of two floats is rounded.\<close>

definition mul_float :: "rounding \<Rightarrow> pyval \<Rightarrow> real \<Rightarrow> exn + real" where
  "mul_float fl v w = (case as_float fl v of Inl e \<Rightarrow> Inl e | Inr x \<Rightarrow> Inr (fl (x * w)))"

text \<open>A \<^verbatim>\<open>for\<close> loop over a list whose body may raise: the first exception ends the loop.\<close>

fun for_each :: "('a \<Rightarrow> 's \<Rightarrow> exn + 's) \<Rightarrow> 'a list \<Rightarrow> 's \<Rightarrow> exn + 's" where
  "for_each body [] s = Inr s"
| "for_each body (x # xs) s =
     (case body x s of Inl e \<Rightarrow> Inl e | Inr s' \<Rightarrow> for_each body xs s')"

section \<open>services/ingredient\_service.py: merge\_detection\_results\<close>

record merged =
  name :: string
  confidence :: real
  sources :: "string list"

text \<open>
  \<^verbatim>\<open>ingredient_scores\<close> is a dictionary, which keeps its keys in the order of their first
  insertion: an association list, where \<^const>\<open>AList.update\<close> replaces the value of a key
  in place and puts a new key last.
\<close>

type_synonym scores = "(string \<times> merged) list"

text \<open>\<^verbatim>\<open>ingredient["name"].lower()\<close>\<close>

definition entry_name :: "pyval \<Rightarrow> exn + string" where
  "entry_name ingredient =
     (case getitem ingredient ''name'' of Inl e \<Rightarrow> Inl e | Inr v \<Rightarrow> py_lower v)"

text \<open>\<^verbatim>\<open>ingredient["confidence"] * w\<close> for a float \<open>w\<close>\<close>

definition entry_weighted :: "rounding \<Rightarrow> pyval \<Rightarrow> real \<Rightarrow> exn + real" where
  "entry_weighted fl ingredient w =
     (case getitem ingredient ''confidence'' of Inl e \<Rightarrow> Inl e | Inr c \<Rightarrow> mul_float fl c w)"

text \<open>The body of the loop over \<^verbatim>\<open>local_results\<close> (lines 92-98).\<close>

definition local_step :: "rounding \<Rightarrow> pyval \<Rightarrow> scores \<Rightarrow> exn + scores" where
  "local_step fl ingredient ingredient_scores =
     (case entry_name ingredient of Inl e \<Rightarrow> Inl e | Inr nm \<Rightarrow>
      case entry_weighted fl ingredient (fl 0.6) of Inl e \<Rightarrow> Inl e | Inr c \<Rightarrow>
        Inr (AList.update nm \<lparr>name = nm, confidence = c, sources = [''local_ml'']\<rparr>
               ingredient_scores))"

text \<open>The body of the loop over \<^verbatim>\<open>openai_results\<close> (lines 101-115).\<close>

definition openai_step :: "rounding \<Rightarrow> pyval \<Rightarrow> scores \<Rightarrow> exn + scores" where
  "openai_step fl ingredient ingredient_scores =
     (case entry_name ingredient of Inl e \<Rightarrow> Inl e | Inr nm \<Rightarrow>
      case map_of ingredient_scores nm of
        Some d \<Rightarrow>
          (case entry_weighted fl ingredient (fl 0.4) of Inl e \<Rightarrow> Inl e | Inr c \<Rightarrow>
             Inr (AList.update nm
                    (d\<lparr>confidence := min (fl (fl (confidence d + c) * fl 1.2)) 1,
                       sources := sources d @ [''openai_vision'']\<rparr>)
                    ingredient_scores))
      | None \<Rightarrow>
          (case entry_weighted fl ingredient (fl 0.4) of Inl e \<Rightarrow> Inl e | Inr c \<Rightarrow>
             Inr (AList.update nm \<lparr>name = nm, confidence = c, sources = [''openai_vision'']\<rparr>
                    ingredient_scores)))"

text \<open>
  Lines 117-128: the values of the dictionary with confidence above the float 0.3, then
  \<^verbatim>\<open>sort(key=confidence, reverse=True)\<close>, which is stable: entries of equal confidence
  keep their order. \<^const>\<open>sort_key\<close> on the negated confidence is that sort.
\<close>

definition by_confidence :: "merged list \<Rightarrow> merged list" where
  "by_confidence xs = sort_key (\<lambda>x. - confidence x) xs"

definition merged_results :: "rounding \<Rightarrow> scores \<Rightarrow> merged list" where
  "merged_results fl ingredient_scores =
     by_confidence (filter (\<lambda>d. confidence d > fl 0.3) (map snd ingredient_scores))"

text \<open>The body of the \<^verbatim>\<open>try\<close> block.\<close>

definition merge_body :: "rounding \<Rightarrow> pyval list \<Rightarrow> pyval list \<Rightarrow> exn + merged list" where
  "merge_body fl local_results openai_results =
     (case for_each (local_step fl) local_results [] of Inl e \<Rightarrow> Inl e | Inr s1 \<Rightarrow>
      case for_each (openai_step fl) openai_results s1 of Inl e \<Rightarrow> Inl e | Inr s2 \<Rightarrow>
        Inr (merged_results fl s2))"

text \<open>\<^verbatim>\<open>except Exception\<close>: any exception of the body is logged and \<^verbatim>\<open>[]\<close> is returned.\<close>

definition merge_detection_results :: "rounding \<Rightarrow> pyval list \<Rightarrow> pyval list \<Rightarrow> merged list" where
  "merge_detection_results fl local_results openai_results =
     (case merge_body fl local_results openai_results of Inl e \<Rightarrow> [] | Inr out \<Rightarrow> out)"

section \<open>routes/upload.py: the ingredients of the response\<close>

text \<open>
  Lines 77-82 of \<^verbatim>\<open>upload_images\<close>: a dictionary keyed by the lowercased name, where an
  ingredient replaces the stored one only when its confidence is strictly higher.
\<close>

definition unique_step :: "merged \<Rightarrow> scores \<Rightarrow> scores" where
  "unique_step ingredient unique_ingredients =
     (let nm = lower (name ingredient) in
      case map_of unique_ingredients nm of
        None \<Rightarrow> AList.update nm ingredient unique_ingredients
      | Some old \<Rightarrow>
          if confidence ingredient > confidence old
          then AList.update nm ingredient unique_ingredients
          else unique_ingredients)"

text \<open>
  Lines 59-99, from the detector outputs of each saved image (a pair of lists, each empty
  when its detector failed): merge per image, collect, remove duplicates, sort by
  confidence (\<^verbatim>\<open>sorted(..., reverse=True)\<close>) and cut with \<^verbatim>\<open>final_ingredients[:20]\<close>.
\<close>

definition all_ingredients :: "rounding \<Rightarrow> (pyval list \<times> pyval list) list \<Rightarrow> merged list" where
  "all_ingredients fl images =
     concat (map (\<lambda>(local_ingredients, openai_ingredients).
                    merge_detection_results fl local_ingredients openai_ingredients) images)"

definition final_ingredients :: "rounding \<Rightarrow> (pyval list \<times> pyval list) list \<Rightarrow> merged list" where
  "final_ingredients fl images =
     by_confidence (map snd (fold unique_step (all_ingredients fl images) []))"

definition upload_ingredients :: "rounding \<Rightarrow> (pyval list \<times> pyval list) list \<Rightarrow> merged list" where
  "upload_ingredients fl images = take 20 (final_ingredients fl images)"

section \<open>models/generated\_recipe.py\<close>

record GeneratedRecipeRequest =
  ingredients :: "string list"
  dietary_preferences :: "string list option"
  cuisine_type :: "string option"
  difficulty_preference :: "string option"

record GeneratedRecipe =
  title :: string
  steps :: "string list"
  estimated_time :: int
  difficulty :: string
  tips :: "string option"
  servings :: int

section \<open>services/recipe\_service.py: fallback\_rule\_based\_recipe\<close>

text \<open>Lines 83-88: \<^verbatim>\<open>grain in ingredients\<close> is membership in the list.\<close>

definition recipe_type_of :: "string list \<Rightarrow> string" where
  "recipe_type_of ingrs =
     (if list_ex (\<lambda>grain. grain \<in> set ingrs) [''rice'', ''pasta'', ''noodles'']
      then ''grain_based''
      else if list_ex (\<lambda>protein. protein \<in> set ingrs)
                [''chicken'', ''beef'', ''fish'', ''paneer'', ''tofu'']
      then ''protein_based''
      else ''vegetable_stir_fry'')"

text \<open>
  Lines 90-136: the dictionary literal builds all three recipes, whichever is chosen, and
  \<^verbatim>\<open>ingredients[0]\<close> raises IndexError on an empty list.
\<close>

definition recipes_table :: "string list \<Rightarrow> exn + (string \<times> GeneratedRecipe) list" where
  "recipes_table ingrs =
     (case ingrs of
        [] \<Rightarrow> Inl IndexError
      | first # _ \<Rightarrow> Inr
         [(''grain_based'',
           \<lparr>title = title_str first @ '' Bowl'',
            steps = [''Prepare all ingredients: '' @ join '', '' ingrs,
                     ''Heat oil in a large pan or wok'',
                     ''Add aromatics (onion, garlic, ginger) if available'',
                     ''Add main ingredients and cook until tender'',
                     ''Season with salt, pepper, and available spices'',
                     ''Serve hot and enjoy!''],
            estimated_time = 25,
            difficulty = ''easy'',
            tips = Some ''Feel free to adjust seasoning to taste'',
            servings = 4\<rparr>),
          (''protein_based'',
           \<lparr>title = ''Simple '' @ title_str first @ '' Dish'',
            steps = [''Clean and prepare '' @ first,
                     ''Heat oil in a pan'',
                     ''Cook protein until golden brown'',
                     ''Add vegetables and seasonings'',
                     ''Cook until everything is well combined'',
                     ''Serve with rice or bread''],
            estimated_time = 30,
            difficulty = ''medium'',
            tips = Some (''Don'' @ [CHR 0x27] @ ''t overcook the protein''),
            servings = 4\<rparr>),
          (''vegetable_stir_fry'',
           \<lparr>title = ''Mixed Vegetable Stir Fry'',
            steps = [''Wash and chop all vegetables'',
                     ''Heat oil in a wok or large pan'',
                     ''Add harder vegetables first'',
                     ''Stir fry on high heat'',
                     ''Add softer vegetables'',
                     ''Season and serve hot''],
            estimated_time = 15,
            difficulty = ''easy'',
            tips = Some ''Keep vegetables crispy for better texture'',
            servings = 4\<rparr>)])"

text \<open>
  The body of the \<^verbatim>\<open>try\<close> block, ending with
  \<^verbatim>\<open>recipes.get(recipe_type, recipes["vegetable_stir_fry"])\<close>.
\<close>

definition fallback_body :: "GeneratedRecipeRequest \<Rightarrow> exn + GeneratedRecipe" where
  "fallback_body request =
     (let ingrs = ingredients request;
          recipe_type = recipe_type_of ingrs
      in case recipes_table ingrs of Inl e \<Rightarrow> Inl e | Inr recipes \<Rightarrow>
         case map_of recipes ''vegetable_stir_fry'' of None \<Rightarrow> Inl KeyError | Some dflt \<Rightarrow>
           Inr (case map_of recipes recipe_type of Some r \<Rightarrow> r | None \<Rightarrow> dflt))"

text \<open>Lines 143-154: the recipe of the \<^verbatim>\<open>except\<close> branch.\<close>

definition absolute_fallback :: GeneratedRecipe where
  "absolute_fallback =
     \<lparr>title = ''Simple Ingredient Mix'',
      steps = [''Combine all available ingredients'',
               ''Cook with basic seasonings'',
               ''Adjust taste as needed''],
      estimated_time = 20,
      difficulty = ''easy'',
      tips = Some ''This is a basic combination of your ingredients'',
      servings = 4\<rparr>"

definition fallback_rule_based_recipe :: "GeneratedRecipeRequest \<Rightarrow> GeneratedRecipe" where
  "fallback_rule_based_recipe request =
     (case fallback_body request of Inl e \<Rightarrow> absolute_fallback | Inr r \<Rightarrow> r)"

section \<open>services/recipe\_service.py: generate\_ai\_recipe\<close>

text \<open>
  The functions of external libraries that the generative path calls are parameters:
  \<^verbatim>\<open>json.loads\<close> (\<open>None\<close> for JSONDecodeError) and pydantic's validators of the
  annotations \<^verbatim>\<open>str\<close> and \<^verbatim>\<open>int\<close>, which accept a value of the annotated type as it is and
  coerce or reject the others by rules of the library.
\<close>

record library =
  json_loads :: "string \<Rightarrow> pyval option"
  str_validator :: "pyval \<Rightarrow> string option"
  int_validator :: "pyval \<Rightarrow> int option"

text \<open>
  \<^verbatim>\<open>GeneratedRecipe(**recipe_data)\<close>: only a dictionary can be unpacked; \<^verbatim>\<open>title\<close>,
  \<^verbatim>\<open>steps\<close>, \<^verbatim>\<open>estimated_time\<close> and \<^verbatim>\<open>difficulty\<close> are required, \<^verbatim>\<open>tips\<close> defaults to
  \<^verbatim>\<open>None\<close> and \<^verbatim>\<open>servings\<close> to 4, other keys are ignored. The model declares no
  constraint on the values of the fields.
\<close>

definition steps_validator :: "library \<Rightarrow> pyval \<Rightarrow> string list option" where
  "steps_validator lib v =
     (case v of PList vs \<Rightarrow> those (map (str_validator lib) vs) | _ \<Rightarrow> None)"

definition validate_fields :: "library \<Rightarrow> (string \<times> pyval) list \<Rightarrow> GeneratedRecipe option" where
  "validate_fields lib kw =
     Option.bind (Option.bind (map_of kw ''title'') (str_validator lib)) (\<lambda>t.
     Option.bind (Option.bind (map_of kw ''steps'') (steps_validator lib)) (\<lambda>ss.
     Option.bind (Option.bind (map_of kw ''estimated_time'') (int_validator lib)) (\<lambda>et.
     Option.bind (Option.bind (map_of kw ''difficulty'') (str_validator lib)) (\<lambda>d.
     Option.bind (case map_of kw ''tips'' of
                    None \<Rightarrow> Some None
                  | Some PNone \<Rightarrow> Some None
                  | Some v \<Rightarrow> map_option Some (str_validator lib v)) (\<lambda>tp.
     Option.bind (case map_of kw ''servings'' of
                    None \<Rightarrow> Some 4
                  | Some v \<Rightarrow> int_validator lib v) (\<lambda>sv.
     Some \<lparr>title = t, steps = ss, estimated_time = et, difficulty = d,
           tips = tp, servings = sv\<rparr>))))))"

definition GeneratedRecipe_init :: "library \<Rightarrow> pyval \<Rightarrow> exn + GeneratedRecipe" where
  "GeneratedRecipe_init lib recipe_data =
     (case recipe_data of
        PDict kw \<Rightarrow>
          (case validate_fields lib kw of None \<Rightarrow> Inl ValidationError | Some r \<Rightarrow> Inr r)
      | _ \<Rightarrow> Inl TypeError)"

text \<open>Lines 57-60: the markdown fence around the reply is cut off.\<close>

definition strip_code_fence :: "string \<Rightarrow> string" where
  "strip_code_fence recipe_text =
     (if startswith recipe_text ''```json'' then slice_between 7 3 recipe_text
      else if startswith recipe_text ''```'' then slice_between 3 3 recipe_text
      else recipe_text)"

text \<open>
  The body of the \<^verbatim>\<open>try\<close> block. \<open>completion\<close> is what the call of the generative
  service and the access to \<^verbatim>\<open>response.choices[0].message.content\<close> give: the text of the
  reply, or an exception.
\<close>

definition generate_body :: "library \<Rightarrow> exn + string \<Rightarrow> exn + GeneratedRecipe" where
  "generate_body lib completion =
     (case completion of Inl e \<Rightarrow> Inl e | Inr content \<Rightarrow>
      let recipe_text = strip_code_fence (strip content) in
      case json_loads lib recipe_text of
        None \<Rightarrow> Inl JSONDecodeError
      | Some recipe_data \<Rightarrow> GeneratedRecipe_init lib recipe_data)"

text \<open>Both \<^verbatim>\<open>except\<close> branches return the rule-based recipe.\<close>

definition generate_ai_recipe ::
  "library \<Rightarrow> exn + string \<Rightarrow> GeneratedRecipeRequest \<Rightarrow> GeneratedRecipe" where
  "generate_ai_recipe lib completion request =
     (case generate_body lib completion of
        Inl e \<Rightarrow> fallback_rule_based_recipe request
      | Inr r \<Rightarrow> r)"

section \<open>Notions used to state the properties\<close>

text \<open>
  The dictionaries that the detectors build (lines 21 and 75 of the ingredient service):
  a name, a confidence and the detector that found it.
\<close>

definition detection :: "string \<Rightarrow> real \<Rightarrow> string \<Rightarrow> pyval" where
  "detection nm c src =
     PDict [(''name'', PStr nm), (''confidence'', PFloat c), (''source'', PStr src)]"

text \<open>
  An entry is well formed when the merger can read its name and its confidence. The name
  and the confidence that the merger reads from an entry (for a malformed entry, the empty
  name and 0, which no statement below relies on).
\<close>

definition well_formed :: "rounding \<Rightarrow> pyval \<Rightarrow> bool" where
  "well_formed fl e = (\<not> isl (entry_name e) \<and> \<not> isl (entry_weighted fl e 1))"

definition name_of :: "pyval \<Rightarrow> string" where
  "name_of e = (case entry_name e of Inr nm \<Rightarrow> nm | Inl _ \<Rightarrow> [])"

definition confidence_of :: "rounding \<Rightarrow> pyval \<Rightarrow> real" where
  "confidence_of fl e =
     (case getitem e ''confidence'' of
        Inr c \<Rightarrow> (case as_float fl c of Inr x \<Rightarrow> x | Inl _ \<Rightarrow> 0)
      | Inl _ \<Rightarrow> 0)"

text \<open>The confidence a detector reported for a name, if it found the name.\<close>

definition found_by :: "rounding \<Rightarrow> pyval list \<Rightarrow> string \<Rightarrow> real option" where
  "found_by fl results nm = map_of (map (\<lambda>e. (name_of e, confidence_of fl e)) results) nm"

text \<open>
  The weighting rule in the words of the specification, evaluated in floats: local alone,
  remote alone, and both with the agreement bonus capped at 1.
\<close>

definition spec_confidence :: "rounding \<Rightarrow> real option \<Rightarrow> real option \<Rightarrow> real option" where
  "spec_confidence fl l r =
     (case l of
        Some lc \<Rightarrow>
          (case r of
             None \<Rightarrow> Some (fl (lc * fl 0.6))
           | Some rc \<Rightarrow>
               Some (min (fl (fl (fl (lc * fl 0.6) + fl (rc * fl 0.4)) * fl 1.2)) 1))
      | None \<Rightarrow>
          (case r of
             None \<Rightarrow> None
           | Some rc \<Rightarrow> Some (fl (rc * fl 0.4))))"

definition spec_sources :: "real option \<Rightarrow> real option \<Rightarrow> string list" where
  "spec_sources l r =
     (case l of Some _ \<Rightarrow> [''local_ml''] | None \<Rightarrow> []) @
     (case r of Some _ \<Rightarrow> [''openai_vision''] | None \<Rightarrow> [])"

text \<open>
  The order in which names are first encountered: scanning the names, each one not seen
  yet is put last. The position of a name in a list (the length when it is absent).
\<close>

definition see :: "'a \<Rightarrow> 'a list \<Rightarrow> 'a list" where
  "see x seen = (if x \<in> set seen then seen else seen @ [x])"

definition first_seen :: "'a list \<Rightarrow> 'a list" where
  "first_seen xs = fold see xs []"

fun index_of :: "'a \<Rightarrow> 'a list \<Rightarrow> nat" where
  "index_of x [] = 0"
| "index_of x (y # ys) = (if x = y then 0 else Suc (index_of x ys))"

definition descending :: "merged list \<Rightarrow> bool" where
  "descending xs = sorted_wrt (\<lambda>a b. confidence a \<ge> confidence b) xs"

text \<open>The invariants of a recipe in the data model of the specification.\<close>

definition recipe_valid :: "GeneratedRecipe \<Rightarrow> bool" where
  "recipe_valid r =
     (title r \<noteq> [] \<and> steps r \<noteq> [] \<and> list_all (\<lambda>s. s \<noteq> []) (steps r) \<and>
      0 < estimated_time r \<and> 0 < servings r \<and>
      difficulty r \<in> set [''easy'', ''medium'', ''hard''])"

text \<open>A request with the defaults of the model for the optional fields.\<close>

definition request_for :: "string list \<Rightarrow> GeneratedRecipeRequest" where
  "request_for ingrs =
     \<lparr>ingredients = ingrs, dietary_preferences = Some [],
      cuisine_type = None, difficulty_preference = None\<rparr>"

text \<open>
  A library that accepts the values of the annotated type only, and parses two replies:
  an object whose fields have the types that the model annotates, and the empty object.
\<close>

definition strict_str :: "pyval \<Rightarrow> string option" where
  "strict_str v = (case v of PStr s \<Rightarrow> Some s | _ \<Rightarrow> None)"

definition strict_int :: "pyval \<Rightarrow> int option" where
  "strict_int v = (case v of PInt i \<Rightarrow> Some i | _ \<Rightarrow> None)"

definition quoted :: "string \<Rightarrow> string" where
  "quoted s = [CHR 0x22] @ s @ [CHR 0x22]"

definition empty_reply :: string where
  "empty_reply =
     ''{'' @ quoted ''title'' @ '': '' @ quoted [] @ '', '' @
     quoted ''steps'' @ '': [], '' @
     quoted ''estimated_time'' @ '': 0, '' @
     quoted ''difficulty'' @ '': '' @ quoted ''extreme'' @ ''}''"

definition empty_reply_data :: pyval where
  "empty_reply_data =
     PDict [(''title'', PStr []), (''steps'', PList []),
            (''estimated_time'', PInt 0), (''difficulty'', PStr ''extreme'')]"

definition strict_library :: library where
  "strict_library =
     \<lparr>json_loads = (\<lambda>s. if s = empty_reply then Some empty_reply_data
                        else if s = ''{}'' then Some (PDict [])
                        else None),
      str_validator = strict_str,
      int_validator = strict_int\<rparr>"


text \<open>Every record of the dictionary is stored under its own name.\<close>

definition keyed :: "scores \<Rightarrow> bool" where
  "keyed s = (map (\<lambda>p. name (snd p)) s = map fst s)"

text \<open>The steps, in terms of what they read from the entry.\<close>

definition local_record :: "rounding \<Rightarrow> pyval \<Rightarrow> merged" where
  "local_record fl e =
     \<lparr>name = name_of e, confidence = fl (confidence_of fl e * fl 0.6),
      sources = [''local_ml'']\<rparr>"

definition openai_record :: "rounding \<Rightarrow> pyval \<Rightarrow> merged option \<Rightarrow> merged" where
  "openai_record fl e old =
     (case old of
        Some d \<Rightarrow>
          d\<lparr>confidence :=
              min (fl (fl (confidence d + fl (confidence_of fl e * fl 0.4)) * fl 1.2)) 1,
                     sources := sources d @ [''openai_vision'']\<rparr>
      | None \<Rightarrow> \<lparr>name = name_of e, confidence = fl (confidence_of fl e * fl 0.4),
                  sources = [''openai_vision'']\<rparr>)"

text \<open>The detections of an image on which the local detector reports 21 names.\<close>

definition crowded :: "pyval list" where
  "crowded = map (\<lambda>c. detection [c] 0.9 ''local_ml'') ''abcdefghijklmnopqrstu''"

text \<open>
  What rounding to the nearest float guarantees of a result within the range of the normal
  floats: a relative error of at most \<open>2^-53\<close>. Exact arithmetic satisfies it as well.
\<close>

definition nearest :: "rounding \<Rightarrow> bool" where
  "nearest fl =
     (\<forall>x. 1 / 2 ^ 1022 \<le> \<bar>x\<bar> \<and> \<bar>x\<bar> \<le> 2 ^ 1023 \<longrightarrow> \<bar>fl x - x\<bar> \<le> \<bar>x\<bar> / 2 ^ 53)"

section \<open>The dictionary of the merger\<close>

lemma nth_subseq:
  assumes "i < j" "j < length xs"
  shows "subseq [xs ! i, xs ! j] xs"
proof -
  have split: "xs = take i xs @ xs ! i # drop (Suc i) xs"
    using assms by (simp add: id_take_nth_drop)
  have "xs ! j = drop (Suc i) xs ! (j - Suc i)"
    using assms by simp
  moreover have "j - Suc i < length (drop (Suc i) xs)"
    using assms by simp
  ultimately have "xs ! j \<in> set (drop (Suc i) xs)"
    by (metis nth_mem)
  then have "subseq [xs ! j] (drop (Suc i) xs)"
    by (simp add: subseq_singleton_left)
  then have "subseq [xs ! i, xs ! j] (xs ! i # drop (Suc i) xs)"
    by simp
  then have "subseq [xs ! i, xs ! j] (take i xs @ xs ! i # drop (Suc i) xs)"
    by (rule list_emb_append2)
  with split show ?thesis by simp
qed

lemma subseq_index:
  "distinct xs \<Longrightarrow> subseq [a, b] xs \<Longrightarrow> index_of a xs < index_of b xs"
proof (induction xs)
  case Nil
  then show ?case by simp
next
  case (Cons x xs)
  show ?case
  proof (cases "x = a")
    case True
    with Cons.prems have "b \<in> set xs" by (simp add: subseq_singleton_left)
    with Cons.prems True have "b \<noteq> x" by auto
    with True show ?thesis by simp
  next
    case False
    with Cons.prems have sub: "subseq [a, b] xs" by simp
    then have "b \<in> set xs" by (meson subseq_Cons' subseq_singleton_left)
    with Cons.prems have "b \<noteq> x" by auto
    with False Cons.IH sub Cons.prems show ?thesis by simp
  qed
qed

lemma for_each_append:
  "for_each body (xs @ ys) s =
     (case for_each body xs s of Inl e \<Rightarrow> Inl e | Inr s' \<Rightarrow> for_each body ys s')"
  by (induction xs arbitrary: s) (auto split: sum.splits)

lemma keyed_update: "keyed s \<Longrightarrow> name v = k \<Longrightarrow> keyed (AList.update k v s)"
  by (induction s) (auto simp: keyed_def)

lemma keyed_map_of: "keyed s \<Longrightarrow> map_of s k = Some d \<Longrightarrow> name d = k"
  by (induction s) (auto simp: keyed_def split: if_splits)

lemma update_keys_see: "map fst (AList.update k v s) = see k (map fst s)"
  by (simp add: update_keys see_def)

lemma local_step_result:
  assumes "local_step fl e s = Inr s'"
  shows "\<exists>v. name v = name_of e \<and> s' = AList.update (name_of e) v s"
proof (cases "entry_name e")
  case (Inl a)
  with assms show ?thesis by (simp add: local_step_def)
next
  case (Inr nm)
  with assms obtain c where
    "s' = AList.update nm \<lparr>name = nm, confidence = c, sources = [''local_ml'']\<rparr> s"
    by (auto simp: local_step_def split: sum.splits)
  moreover from Inr have "name_of e = nm" by (simp add: name_of_def)
  ultimately show ?thesis
    by (intro exI [of _ "\<lparr>name = nm, confidence = c, sources = [''local_ml'']\<rparr>"]) simp
qed

lemma openai_step_result:
  assumes "openai_step fl e s = Inr s'" "keyed s"
  shows "\<exists>v. name v = name_of e \<and> s' = AList.update (name_of e) v s"
proof (cases "entry_name e")
  case (Inl a)
  with assms show ?thesis by (simp add: openai_step_def)
next
  case (Inr nm)
  then have nm: "name_of e = nm" by (simp add: name_of_def)
  show ?thesis
  proof (cases "map_of s nm")
    case None
    with Inr assms(1) obtain c where
      "s' = AList.update nm \<lparr>name = nm, confidence = c, sources = [''openai_vision'']\<rparr> s"
      by (auto simp: openai_step_def split: sum.splits)
    with nm show ?thesis
      by (intro exI [of _ "\<lparr>name = nm, confidence = c, sources = [''openai_vision'']\<rparr>"]) simp
  next
    case (Some d)
    with assms(2) have "name d = nm" by (rule keyed_map_of)
    moreover from Some Inr assms(1) obtain c where
      "s' = AList.update nm (d\<lparr>confidence := min (fl (fl (confidence d + c) * fl 1.2)) 1,
                               sources := sources d @ [''openai_vision'']\<rparr>) s"
      by (auto simp: openai_step_def split: sum.splits)
    ultimately show ?thesis using nm
      by (intro exI [of _ "d\<lparr>confidence := min (fl (fl (confidence d + c) * fl 1.2)) 1,
                               sources := sources d @ [''openai_vision'']\<rparr>"]) simp
  qed
qed

lemma local_step_keys:
  "local_step fl e s = Inr s' \<Longrightarrow> map fst s' = see (name_of e) (map fst s)"
  by (drule local_step_result) (auto simp: update_keys_see)

lemma local_step_keyed: "local_step fl e s = Inr s' \<Longrightarrow> keyed s \<Longrightarrow> keyed s'"
  by (drule local_step_result) (auto simp: keyed_update)

lemma openai_step_keys:
  "openai_step fl e s = Inr s' \<Longrightarrow> keyed s \<Longrightarrow> map fst s' = see (name_of e) (map fst s)"
  by (drule (1) openai_step_result) (auto simp: update_keys_see)

lemma openai_step_keyed: "openai_step fl e s = Inr s' \<Longrightarrow> keyed s \<Longrightarrow> keyed s'"
  by (drule (1) openai_step_result) (auto simp: keyed_update)

lemma distinct_see: "distinct ks \<Longrightarrow> distinct (see k ks)"
  by (simp add: see_def)

lemma local_loop_keys:
  "for_each (local_step fl) es s = Inr s' \<Longrightarrow> map fst s' = fold see (map name_of es) (map fst s)"
  by (induction es arbitrary: s) (auto split: sum.splits dest: local_step_keys)

lemma openai_loop_keys:
  "for_each (openai_step fl) es s = Inr s' \<Longrightarrow> keyed s \<Longrightarrow>
   map fst s' = fold see (map name_of es) (map fst s)"
proof (induction es arbitrary: s)
  case Nil
  then show ?case by simp
next
  case (Cons e es)
  from Cons.prems obtain s1 where
    step: "openai_step fl e s = Inr s1" and rest: "for_each (openai_step fl) es s1 = Inr s'"
    by (auto split: sum.splits)
  from step Cons.prems(2) have "keyed s1" by (rule openai_step_keyed)
  with rest have "map fst s' = fold see (map name_of es) (map fst s1)" by (rule Cons.IH)
  with step Cons.prems(2) show ?case by (simp add: openai_step_keys)
qed

lemma local_loop_keyed: "for_each (local_step fl) es s = Inr s' \<Longrightarrow> keyed s \<Longrightarrow> keyed s'"
  by (induction es arbitrary: s) (auto split: sum.splits dest: local_step_keyed)

lemma openai_loop_keyed: "for_each (openai_step fl) es s = Inr s' \<Longrightarrow> keyed s \<Longrightarrow> keyed s'"
  by (induction es arbitrary: s) (auto split: sum.splits dest: openai_step_keyed)

lemma distinct_fold_see: "distinct ks \<Longrightarrow> distinct (fold see xs ks)"
  by (induction xs arbitrary: ks) (auto simp: distinct_see)

lemma distinct_first_seen: "distinct (first_seen xs)"
  by (simp add: first_seen_def distinct_fold_see)

text \<open>What a successful run of the body leaves in the dictionary.\<close>

lemma merge_body_scores:
  assumes "merge_body fl l r = Inr out"
  obtains s where "out = merged_results fl s" "keyed s"
    "map fst s = first_seen (map name_of l @ map name_of r)"
proof -
  from assms obtain s1 s2 where
    s1: "for_each (local_step fl) l [] = Inr s1" and
    s2: "for_each (openai_step fl) r s1 = Inr s2" and
    out: "out = merged_results fl s2"
    by (auto simp: merge_body_def split: sum.splits)
  have "keyed s1" using local_loop_keyed [OF s1] by (simp add: keyed_def)
  then have k: "keyed s2" using openai_loop_keyed [OF s2] by simp
  have "map fst s2 = first_seen (map name_of l @ map name_of r)"
    using local_loop_keys [OF s1] openai_loop_keys [OF s2 \<open>keyed s1\<close>]
    by (simp add: first_seen_def)
  with out k that show thesis by blast
qed

lemma merge_cases:
  obtains (failed) e where "merge_body fl l r = Inl e" "merge_detection_results fl l r = []"
  | (merged) out where "merge_body fl l r = Inr out" "merge_detection_results fl l r = out"
  by (cases "merge_body fl l r") (auto simp: merge_detection_results_def)

lemma set_merged_results:
  "set (merged_results fl s) = {d \<in> snd ` set s. fl 0.3 < confidence d}"
  by (auto simp: merged_results_def by_confidence_def)

lemma descending_by_confidence: "descending (by_confidence xs)"
proof -
  have "sorted (map (\<lambda>x. - confidence x) (sort_key (\<lambda>x. - confidence x) xs))"
    by (rule sorted_sort_key)
  then show ?thesis
    by (simp add: descending_def by_confidence_def sorted_map)
qed

lemma by_confidence_stable:
  assumes "i < j" "j < length (by_confidence xs)"
    "confidence (by_confidence xs ! i) = confidence (by_confidence xs ! j)"
  shows "subseq [by_confidence xs ! i, by_confidence xs ! j] xs"
proof -
  let ?out = "by_confidence xs"
  let ?P = "\<lambda>y. - confidence y = - confidence (?out ! j)"
  have "subseq [?out ! i, ?out ! j] ?out"
    using assms by (simp add: nth_subseq)
  then have "subseq (filter ?P [?out ! i, ?out ! j]) (filter ?P ?out)"
    by (rule subseq_filter)
  moreover have "filter ?P ?out = filter ?P xs"
    unfolding by_confidence_def by (rule sort_key_stable)
  ultimately have "subseq [?out ! i, ?out ! j] (filter ?P xs)"
    using assms by simp
  moreover have "subseq (filter ?P xs) xs" by simp
  ultimately show ?thesis
    by (rule subseq_order.trans)
qed

lemma entry_weighted_confidence:
  assumes "entry_weighted fl e w = Inr c"
  shows "c = fl (confidence_of fl e * w)"
proof (cases "getitem e ''confidence''")
  case (Inl a)
  with assms show ?thesis by (simp add: entry_weighted_def)
next
  case (Inr v)
  with assms show ?thesis
    by (cases "as_float fl v")
       (auto simp: entry_weighted_def mul_float_def confidence_of_def)
qed

lemma isl_entry_weighted: "isl (entry_weighted fl e w) = isl (entry_weighted fl e 1)"
proof (cases "getitem e ''confidence''")
  case (Inl a)
  then show ?thesis by (simp add: entry_weighted_def)
next
  case (Inr v)
  then show ?thesis
    by (cases "as_float fl v") (simp_all add: entry_weighted_def mul_float_def)
qed

lemma well_formed_reads:
  assumes "well_formed fl e"
  shows "entry_name e = Inr (name_of e)"
    "entry_weighted fl e w = Inr (fl (confidence_of fl e * w))"
proof -
  from assms show "entry_name e = Inr (name_of e)"
    by (cases "entry_name e") (simp_all add: well_formed_def name_of_def)
  from assms have "\<not> isl (entry_weighted fl e w)"
    by (simp add: well_formed_def isl_entry_weighted [of fl e w])
  then obtain c where c: "entry_weighted fl e w = Inr c"
    by (cases "entry_weighted fl e w") simp_all
  then show "entry_weighted fl e w = Inr (fl (confidence_of fl e * w))"
    using entry_weighted_confidence by blast
qed

lemma local_step_well_formed:
  "well_formed fl e \<Longrightarrow> local_step fl e s = Inr (AList.update (name_of e) (local_record fl e) s)"
  by (simp add: local_step_def local_record_def well_formed_reads)

lemma openai_step_well_formed:
  "well_formed fl e \<Longrightarrow>
   openai_step fl e s =
     Inr (AList.update (name_of e) (openai_record fl e (map_of s (name_of e))) s)"
  by (simp add: openai_step_def openai_record_def well_formed_reads split: option.splits)

lemma local_step_malformed: "\<not> well_formed fl e \<Longrightarrow> isl (local_step fl e s)"
  using isl_entry_weighted [of fl e "fl 0.6"]
  by (auto simp: local_step_def well_formed_def split: sum.splits)

lemma openai_step_malformed: "\<not> well_formed fl e \<Longrightarrow> isl (openai_step fl e s)"
  using isl_entry_weighted [of fl e "fl 0.4"]
  by (auto simp: openai_step_def well_formed_def split: sum.splits option.splits)

lemma local_loop_fails:
  "isl (for_each (local_step fl) es s) \<longleftrightarrow> (\<exists>e \<in> set es. \<not> well_formed fl e)"
proof (induction es arbitrary: s)
  case Nil
  then show ?case by simp
next
  case (Cons e es)
  show ?case
  proof (cases "well_formed fl e")
    case True
    then show ?thesis by (simp add: local_step_well_formed Cons.IH)
  next
    case False
    then have "isl (local_step fl e s)" by (rule local_step_malformed)
    with False show ?thesis by (auto split: sum.splits)
  qed
qed

lemma openai_loop_fails:
  "isl (for_each (openai_step fl) es s) \<longleftrightarrow> (\<exists>e \<in> set es. \<not> well_formed fl e)"
proof (induction es arbitrary: s)
  case Nil
  then show ?case by simp
next
  case (Cons e es)
  show ?case
  proof (cases "well_formed fl e")
    case True
    then show ?thesis by (simp add: openai_step_well_formed Cons.IH)
  next
    case False
    then have "isl (openai_step fl e s)" by (rule openai_step_malformed)
    with False show ?thesis by (auto split: sum.splits)
  qed
qed

lemma merge_body_fails:
  "isl (merge_body fl l r) \<longleftrightarrow> (\<exists>e \<in> set (l @ r). \<not> well_formed fl e)"
proof (cases "for_each (local_step fl) l []")
  case (Inl a)
  then have "isl (for_each (local_step fl) l [])" by simp
  then have "\<exists>e \<in> set l. \<not> well_formed fl e" by (simp add: local_loop_fails)
  with Inl show ?thesis by (auto simp: merge_body_def)
next
  case (Inr s1)
  then have "\<not> isl (for_each (local_step fl) l [])" by simp
  then have l: "\<forall>e \<in> set l. well_formed fl e" by (simp add: local_loop_fails)
  have "isl (merge_body fl l r) = isl (for_each (openai_step fl) r s1)"
    using Inr by (simp add: merge_body_def split: sum.splits)
  with l show ?thesis by (auto simp: openai_loop_fails)
qed

lemma found_by_Cons:
  "found_by fl (e # es) n = (if n = name_of e then Some (confidence_of fl e) else found_by fl es n)"
  by (simp add: found_by_def)

lemma found_by_None: "found_by fl es n = None \<longleftrightarrow> n \<notin> set (map name_of es)"
  by (simp add: found_by_def map_of_eq_None_iff image_image)

lemma local_loop_map_of:
  assumes "for_each (local_step fl) es s = Inr s'" "distinct (map name_of es)"
  shows "map_of s' n =
    (case found_by fl es n of
       Some c \<Rightarrow> Some \<lparr>name = n, confidence = fl (c * fl 0.6), sources = [''local_ml'']\<rparr>
     | None \<Rightarrow> map_of s n)"
  using assms
proof (induction es arbitrary: s)
  case Nil
  then show ?case by (simp add: found_by_def)
next
  case (Cons e es)
  from Cons.prems(1) have "\<not> isl (for_each (local_step fl) (e # es) s)" by simp
  then have wf: "well_formed fl e" by (simp add: local_loop_fails del: for_each.simps)
  let ?s1 = "AList.update (name_of e) (local_record fl e) s"
  from Cons.prems(1) wf have rest: "for_each (local_step fl) es ?s1 = Inr s'"
    by (simp add: local_step_well_formed)
  from Cons.prems(2) have d: "distinct (map name_of es)" and
    fresh: "name_of e \<notin> set (map name_of es)" by simp_all
  have IH: "map_of s' n =
    (case found_by fl es n of
       Some c \<Rightarrow> Some \<lparr>name = n, confidence = fl (c * fl 0.6), sources = [''local_ml'']\<rparr>
     | None \<Rightarrow> map_of ?s1 n)"
    using rest d by (rule Cons.IH)
  show ?case
  proof (cases "n = name_of e")
    case True
    with fresh have "found_by fl es n = None" by (simp add: found_by_None)
    with IH True show ?thesis
      by (simp add: found_by_Cons update_conv' local_record_def split: option.splits)
  next
    case False
    with IH show ?thesis by (simp add: found_by_Cons update_conv' split: option.splits)
  qed
qed

lemma openai_loop_map_of:
  assumes "for_each (openai_step fl) es s = Inr s'" "distinct (map name_of es)"
  shows "map_of s' n =
    (case found_by fl es n of
       Some c \<Rightarrow> Some (case map_of s n of
           Some d \<Rightarrow> d\<lparr>confidence :=
                          min (fl (fl (confidence d + fl (c * fl 0.4)) * fl 1.2)) 1,
                        sources := sources d @ [''openai_vision'']\<rparr>
         | None \<Rightarrow> \<lparr>name = n, confidence = fl (c * fl 0.4),
                     sources = [''openai_vision'']\<rparr>)
     | None \<Rightarrow> map_of s n)"
  using assms
proof (induction es arbitrary: s)
  case Nil
  then show ?case by (simp add: found_by_def)
next
  case (Cons e es)
  from Cons.prems(1) have "\<not> isl (for_each (openai_step fl) (e # es) s)" by simp
  then have wf: "well_formed fl e" by (simp add: openai_loop_fails del: for_each.simps)
  let ?s1 = "AList.update (name_of e) (openai_record fl e (map_of s (name_of e))) s"
  from Cons.prems(1) wf have rest: "for_each (openai_step fl) es ?s1 = Inr s'"
    by (simp add: openai_step_well_formed)
  from Cons.prems(2) have d: "distinct (map name_of es)" and
    fresh: "name_of e \<notin> set (map name_of es)" by simp_all
  have IH: "map_of s' n =
    (case found_by fl es n of
       Some c \<Rightarrow> Some (case map_of ?s1 n of
           Some d \<Rightarrow> d\<lparr>confidence :=
                          min (fl (fl (confidence d + fl (c * fl 0.4)) * fl 1.2)) 1,
                        sources := sources d @ [''openai_vision'']\<rparr>
         | None \<Rightarrow> \<lparr>name = n, confidence = fl (c * fl 0.4),
                     sources = [''openai_vision'']\<rparr>)
     | None \<Rightarrow> map_of ?s1 n)"
    using rest d by (rule Cons.IH)
  show ?case
  proof (cases "n = name_of e")
    case True
    with fresh have "found_by fl es n = None" by (simp add: found_by_None)
    with IH True show ?thesis
      by (simp add: found_by_Cons update_conv' openai_record_def split: option.splits)
  next
    case False
    with IH show ?thesis by (simp add: found_by_Cons update_conv' split: option.splits)
  qed
qed

lemma merged_results_map_of:
  assumes "m \<in> set (merged_results fl s)" "keyed s" "distinct (map fst s)"
  shows "map_of s (name m) = Some m"
proof -
  from assms(1) obtain k where km: "(k, m) \<in> set s"
    by (auto simp: set_merged_results)
  with assms(3) have "map_of s k = Some m" by simp
  moreover from assms(2) this have "name m = k" by (rule keyed_map_of)
  ultimately show ?thesis by simp
qed

lemma merge_body_map_of:
  assumes "merge_body fl l r = Inr out" "distinct (map name_of l)" "distinct (map name_of r)"
    "m \<in> set out"
  shows "Some m =
    (case found_by fl r (name m) of
       Some rc \<Rightarrow> Some (case found_by fl l (name m) of
           Some lc \<Rightarrow> \<lparr>name = name m,
                        confidence =
                          min (fl (fl (fl (lc * fl 0.6) + fl (rc * fl 0.4)) * fl 1.2)) 1,
                        sources = [''local_ml'', ''openai_vision'']\<rparr>
         | None \<Rightarrow> \<lparr>name = name m, confidence = fl (rc * fl 0.4),
                     sources = [''openai_vision'']\<rparr>)
     | None \<Rightarrow> (case found_by fl l (name m) of
           Some lc \<Rightarrow> Some \<lparr>name = name m, confidence = fl (lc * fl 0.6),
                          sources = [''local_ml'']\<rparr>
         | None \<Rightarrow> None))"
proof -
  from assms(1) obtain s1 s2 where
    s1: "for_each (local_step fl) l [] = Inr s1" and
    s2: "for_each (openai_step fl) r s1 = Inr s2" and
    out: "out = merged_results fl s2"
    by (auto simp: merge_body_def split: sum.splits)
  have k1: "keyed s1" using local_loop_keyed [OF s1] by (simp add: keyed_def)
  then have k2: "keyed s2" using openai_loop_keyed [OF s2] by simp
  have "map fst s2 = fold see (map name_of r) (fold see (map name_of l) [])"
    using local_loop_keys [OF s1] openai_loop_keys [OF s2 k1] by simp
  then have "distinct (map fst s2)" by (simp add: distinct_fold_see)
  with assms(4) k2 have "map_of s2 (name m) = Some m"
    unfolding out by (intro merged_results_map_of)
  moreover note openai_loop_map_of [OF s2 assms(3), of "name m"]
    local_loop_map_of [OF s1 assms(2), of "name m"]
  ultimately show ?thesis
    by (auto split: option.splits)
qed

lemma set_update_subset: "set (AList.update k v s) \<subseteq> insert (k, v) (set s)"
  by (induction s) auto

lemma local_loop_sources:
  assumes "for_each (local_step fl) es s = Inr s'" "\<forall>d \<in> snd ` set s. sources d = [''local_ml'']"
  shows "\<forall>d \<in> snd ` set s'. sources d = [''local_ml'']"
  using assms
proof (induction es arbitrary: s)
  case Nil
  then show ?case by simp
next
  case (Cons e es)
  from Cons.prems(1) have "\<not> isl (for_each (local_step fl) (e # es) s)" by simp
  then have wf: "well_formed fl e" by (simp add: local_loop_fails del: for_each.simps)
  let ?s1 = "AList.update (name_of e) (local_record fl e) s"
  from Cons.prems(1) wf have rest: "for_each (local_step fl) es ?s1 = Inr s'"
    by (simp add: local_step_well_formed)
  have "\<forall>d \<in> snd ` set ?s1. sources d = [''local_ml'']"
    using Cons.prems(2) set_update_subset [of "name_of e" "local_record fl e" s]
    by (auto simp: local_record_def)
  with rest show ?case by (rule Cons.IH)
qed

lemma openai_loop_sources:
  assumes "for_each (openai_step fl) es s = Inr s'"
    "\<forall>d \<in> snd ` set s. set (sources d) \<subseteq> {''openai_vision''}"
  shows "\<forall>d \<in> snd ` set s'. set (sources d) \<subseteq> {''openai_vision''}"
  using assms
proof (induction es arbitrary: s)
  case Nil
  then show ?case by simp
next
  case (Cons e es)
  from Cons.prems(1) have "\<not> isl (for_each (openai_step fl) (e # es) s)" by simp
  then have wf: "well_formed fl e" by (simp add: openai_loop_fails del: for_each.simps)
  let ?v = "openai_record fl e (map_of s (name_of e))"
  let ?s1 = "AList.update (name_of e) ?v s"
  from Cons.prems(1) wf have rest: "for_each (openai_step fl) es ?s1 = Inr s'"
    by (simp add: openai_step_well_formed)
  have v: "set (sources ?v) \<subseteq> {''openai_vision''}"
  proof (cases "map_of s (name_of e)")
    case None
    then show ?thesis by (simp add: openai_record_def)
  next
    case (Some d)
    then have "d \<in> snd ` set s" by (force dest: map_of_SomeD)
    with Cons.prems(2) have "set (sources d) \<subseteq> {''openai_vision''}" by blast
    with Some show ?thesis by (simp add: openai_record_def)
  qed
  have "\<forall>d \<in> snd ` set ?s1. set (sources d) \<subseteq> {''openai_vision''}"
  proof
    fix d assume "d \<in> snd ` set ?s1"
    then have "d = ?v \<or> d \<in> snd ` set s"
      using set_update_subset [of "name_of e" ?v s] by auto
    with v Cons.prems(2) show "set (sources d) \<subseteq> {''openai_vision''}" by blast
  qed
  with rest show ?case by (rule Cons.IH)
qed


lemma set_fold_see: "set (fold see xs ks) = set xs \<union> set ks"
  by (induction xs arbitrary: ks) (auto simp: see_def)

lemma distinct_map_by_confidence:
  "distinct (map f xs) \<Longrightarrow> distinct (map f (by_confidence xs))"
  by (simp add: distinct_map by_confidence_def)


lemmas merge_eval =
  detection_def merge_detection_results_def merge_body_def local_step_def openai_step_def
  entry_name_def entry_weighted_def mul_float_def exact_def merged_results_def by_confidence_def
  lower_def lower_char_def upper_letters_def lower_letters_def

text \<open>Which entries are well formed.\<close>

lemma as_float_returns:
  "\<not> isl (as_float fl c) \<longleftrightarrow>
     (\<exists>x. c = PFloat x) \<or> (\<exists>i. c = PInt i \<and> float_range i) \<or> (\<exists>b. c = PBool b)"
  by (cases c) auto

lemma entry_name_returns:
  "\<not> isl (entry_name v) \<longleftrightarrow> (\<exists>kvs s. v = PDict kvs \<and> map_of kvs ''name'' = Some (PStr s))"
proof (cases v)
  case (PDict kvs)
  show ?thesis
  proof (cases "map_of kvs ''name''")
    case None
    with PDict show ?thesis by (simp add: entry_name_def)
  next
    case (Some w)
    with PDict show ?thesis by (cases w) (simp_all add: entry_name_def)
  qed
qed (simp_all add: entry_name_def)

lemma entry_weighted_returns:
  "\<not> isl (entry_weighted fl v w) \<longleftrightarrow>
     (\<exists>kvs c. v = PDict kvs \<and> map_of kvs ''confidence'' = Some c \<and> \<not> isl (as_float fl c))"
proof (cases v)
  case (PDict kvs)
  show ?thesis
  proof (cases "map_of kvs ''confidence''")
    case None
    with PDict show ?thesis by (simp add: entry_weighted_def)
  next
    case (Some c)
    with PDict show ?thesis
      by (cases "as_float fl c") (simp_all add: entry_weighted_def mul_float_def)
  qed
qed (simp_all add: entry_weighted_def)

lemma well_formed_shape:
  "well_formed fl v \<longleftrightarrow>
     (\<exists>kvs s c. v = PDict kvs \<and> map_of kvs ''name'' = Some (PStr s) \<and>
        map_of kvs ''confidence'' = Some c \<and>
        ((\<exists>x. c = PFloat x) \<or> (\<exists>i. c = PInt i \<and> \<bar>i\<bar> < 2 ^ 1024 - 2 ^ 970) \<or>
         (\<exists>b. c = PBool b)))"
  unfolding well_formed_def entry_name_returns entry_weighted_returns as_float_returns
    float_range_def
  by auto

text \<open>The examples of the specification in rounded arithmetic.\<close>

lemma nearest_exact: "nearest exact"
  by (simp add: nearest_def exact_def)

lemma nearest_bounds:
  assumes "nearest fl" "1 / 1024 \<le> a" "a \<le> x" "x \<le> b" "b \<le> 1024"
  shows "a * 0.999 \<le> fl x \<and> fl x \<le> b * 1.001"
proof -
  have pos: "0 < x" using assms by simp
  have "(2::real) ^ 10 \<le> 2 ^ 1022" by (rule power_increasing) simp_all
  then have "1 / (2::real) ^ 1022 \<le> 1 / 2 ^ 10" by (simp add: field_simps)
  with assms pos have lo: "1 / 2 ^ 1022 \<le> \<bar>x\<bar>" by simp
  have "(2::real) ^ 10 \<le> 2 ^ 1023" by (rule power_increasing) simp_all
  with assms pos have hi: "\<bar>x\<bar> \<le> 2 ^ 1023" by simp
  from assms(1) lo hi have "\<bar>fl x - x\<bar> \<le> \<bar>x\<bar> / 2 ^ 53"
    unfolding nearest_def by blast
  moreover have "\<bar>x\<bar> / 2 ^ 53 \<le> x * 0.001" using pos by simp
  ultimately have err: "\<bar>fl x - x\<bar> \<le> x * 0.001" by linarith
  then have "x - x * 0.001 \<le> fl x" "fl x \<le> x + x * 0.001" by linarith+
  moreover have "a * 0.999 \<le> x - x * 0.001" using assms by simp
  moreover have "x + x * 0.001 \<le> b * 1.001" using assms by simp
  ultimately show ?thesis by linarith
qed

lemma nearest_literal:
  assumes "nearest fl" "1 / 1024 \<le> d" "d \<le> 1024"
  shows "d * 0.999 \<le> fl d" "fl d \<le> d * 1.001"
  using nearest_bounds [OF assms(1,2) order_refl order_refl assms(3)] by simp_all

lemma nearest_product:
  assumes n: "nearest fl"
    and c: "0.1 \<le> c" "c \<le> 1" and w: "0.1 \<le> w" "w \<le> 2"
  shows "c * w * 0.997 \<le> fl (fl c * fl w)" "fl (fl c * fl w) \<le> c * w * 1.004"
proof -
  have fc: "c * 0.999 \<le> fl c" "fl c \<le> c * 1.001"
    using nearest_literal [OF n, of c] c by simp_all
  have fw: "w * 0.999 \<le> fl w" "fl w \<le> w * 1.001"
    using nearest_literal [OF n, of w] w by simp_all
  have lo: "(c * 0.999) * (w * 0.999) \<le> fl c * fl w"
    using fc fw c w by (intro mult_mono) simp_all
  have hi: "fl c * fl w \<le> (c * 1.001) * (w * 1.001)"
    using fc fw c w by (intro mult_mono) simp_all
  have pos: "0 < c * w" using c w by simp
  have cw: "0.01 \<le> c * w" "c * w \<le> 2"
    using mult_mono [of "0.1" c "0.1" w] mult_mono [of c 1 w 2] c w by simp_all
  have "1 / 1024 \<le> (c * 0.999) * (w * 0.999)" using cw by simp
  moreover have "(c * 1.001) * (w * 1.001) \<le> 1024" using cw by simp
  ultimately have b: "(c * 0.999) * (w * 0.999) * 0.999 \<le> fl (fl c * fl w)"
      "fl (fl c * fl w) \<le> (c * 1.001) * (w * 1.001) * 1.001"
    using nearest_bounds [OF n _ lo hi] by simp_all
  from b(1) pos show "c * w * 0.997 \<le> fl (fl c * fl w)" by simp
  from b(2) pos show "fl (fl c * fl w) \<le> c * w * 1.004" by simp
qed

lemma rounded_kept:
  assumes "nearest fl"
  shows "fl 0.3 < fl (fl 0.9 * fl 0.6)"
proof -
  have "fl 0.3 \<le> 0.3 * 1.001" using nearest_literal [OF assms, of "0.3"] by simp
  moreover have "0.9 * 0.6 * 0.997 \<le> fl (fl 0.9 * fl 0.6)"
    using nearest_product [OF assms, of "0.9" "0.6"] by simp
  ultimately show ?thesis by simp
qed

lemma rounded_dropped:
  assumes "nearest fl"
  shows "\<not> fl 0.3 < fl (fl 0.4 * fl 0.6)"
proof -
  have "0.3 * 0.999 \<le> fl 0.3" using nearest_literal [OF assms, of "0.3"] by simp
  moreover have "fl (fl 0.4 * fl 0.6) \<le> 0.4 * 0.6 * 1.004"
    using nearest_product [OF assms, of "0.4" "0.6"] by simp
  ultimately show ?thesis by simp
qed

lemma rounded_capped:
  assumes n: "nearest fl"
  shows "1 \<le> fl (fl (fl (fl 0.9 * fl 0.6) + fl (fl 0.8 * fl 0.4)) * fl 1.2)"
proof -
  let ?l = "fl (fl 0.9 * fl 0.6)" and ?r = "fl (fl 0.8 * fl 0.4)"
  have l: "0.9 * 0.6 * 0.997 \<le> ?l" "?l \<le> 0.9 * 0.6 * 1.004"
    using nearest_product [OF n, of "0.9" "0.6"] by simp_all
  have r: "0.8 * 0.4 * 0.997 \<le> ?r" "?r \<le> 0.8 * 0.4 * 1.004"
    using nearest_product [OF n, of "0.8" "0.4"] by simp_all
  have s: "0.857 \<le> ?l + ?r" "?l + ?r \<le> 0.864" using l r by simp_all
  have fs: "0.857 * 0.999 \<le> fl (?l + ?r)" "fl (?l + ?r) \<le> 0.864 * 1.001"
    using nearest_bounds [OF n _ s] by simp_all
  have k: "1.2 * 0.999 \<le> fl 1.2" "fl 1.2 \<le> 1.2 * 1.001"
    using nearest_literal [OF n, of "1.2"] by simp_all
  have lo: "(0.857 * 0.999) * (1.2 * 0.999) \<le> fl (?l + ?r) * fl 1.2"
    using fs k by (intro mult_mono) simp_all
  have hi: "fl (?l + ?r) * fl 1.2 \<le> (0.864 * 1.001) * (1.2 * 1.001)"
    using fs k by (intro mult_mono) simp_all
  have "(0.857 * 0.999) * (1.2 * 0.999) * 0.999 \<le> fl (fl (?l + ?r) * fl 1.2)"
    using nearest_bounds [OF n _ lo hi] by simp
  then show ?thesis by simp
qed

lemmas rounded_eval =
  detection_def merge_detection_results_def merge_body_def local_step_def openai_step_def
  entry_name_def entry_weighted_def mul_float_def merged_results_def by_confidence_def
  lower_def lower_char_def upper_letters_def lower_letters_def

lemma rounded_local_alone:
  assumes "nearest fl"
  shows "merge_detection_results fl [detection ''tomato'' (fl 0.9) ''local_ml''] [] =
     [\<lparr>name = ''tomato'', confidence = fl (fl 0.9 * fl 0.6), sources = [''local_ml'']\<rparr>]"
  using rounded_kept [OF assms] by (simp add: rounded_eval)

lemma rounded_threshold:
  assumes "nearest fl"
  shows "merge_detection_results fl [detection ''parsley'' (fl 0.4) ''local_ml''] [] = []"
  using rounded_dropped [OF assms] by (simp add: rounded_eval)

lemma rounded_agreement:
  assumes "nearest fl"
  shows "merge_detection_results fl [detection ''tomato'' (fl 0.9) ''local_ml'']
        [detection ''tomato'' (fl 0.8) ''openai_vision''] =
      [\<lparr>name = ''tomato'', confidence = 1, sources = [''local_ml'', ''openai_vision'']\<rparr>]"
proof -
  have "fl 0.3 \<le> 0.3 * 1.001" using nearest_literal [OF assms, of "0.3"] by simp
  then have "fl 0.3 < 1" by simp
  with rounded_capped [OF assms] show ?thesis
    by (simp add: rounded_eval min_def)
qed

section \<open>Properties of the merger\<close>

text \<open>
  C3. Every entry of the merge output has a confidence strictly above 0.3 (the float of
  that literal), whatever the two input lists and the rounding are; a lone local detection
  of 0.4 is weighted to 0.24 and is absent from the output, in exact arithmetic and in every
  arithmetic that rounds to nearest.
\<close>

theorem merge_above_threshold:
  "(\<forall>m \<in> set (merge_detection_results fl local_results openai_results).
      fl 0.3 < confidence m) \<and>
   merge_detection_results exact [detection ''parsley'' 0.4 ''local_ml''] [] = [] \<and>
   (nearest fl \<longrightarrow>
      merge_detection_results fl [detection ''parsley'' (fl 0.4) ''local_ml''] [] = [])"
proof (intro conjI)
  show "\<forall>m \<in> set (merge_detection_results fl local_results openai_results).
      fl 0.3 < confidence m"
  proof (cases fl local_results openai_results rule: merge_cases)
    case (failed e)
    then show ?thesis by simp
  next
    case (merged out)
    then obtain s where "out = merged_results fl s" by (auto elim: merge_body_scores)
    with merged show ?thesis by (simp add: set_merged_results)
  qed
  show "merge_detection_results exact [detection ''parsley'' 0.4 ''local_ml''] [] = []"
    by (simp add: merge_eval)
  show "nearest fl \<longrightarrow>
      merge_detection_results fl [detection ''parsley'' (fl 0.4) ''local_ml''] [] = []"
    by (rule impI) (rule rounded_threshold)
qed

theorem merge_above_threshold_witness:
  "merge_detection_results exact [detection ''tomato'' 0.9 ''local_ml''] [] =
     [\<lparr>name = ''tomato'', confidence = 0.54, sources = [''local_ml'']\<rparr>] \<and>
   (0.3::real) < 0.54 \<and>
   nearest exact \<and>
   merge_detection_results exact [detection ''parsley'' (exact 0.4) ''local_ml''] [] = []"
proof -
  note rounded =
    merge_above_threshold [of exact, THEN conjunct2, THEN conjunct2, rule_format,
      OF nearest_exact]
  have out: "merge_detection_results exact [detection ''tomato'' 0.9 ''local_ml''] [] =
     [\<lparr>name = ''tomato'', confidence = 0.54, sources = [''local_ml'']\<rparr>]"
    by (simp add: merge_eval)
  then have "\<lparr>name = ''tomato'', confidence = 0.54, sources = [''local_ml'']\<rparr>
      \<in> set (merge_detection_results exact [detection ''tomato'' 0.9 ''local_ml''] [])"
    by simp
  with merge_above_threshold [of exact "[detection ''tomato'' 0.9 ''local_ml'']" "[]"]
  have "exact 0.3
      < confidence \<lparr>name = ''tomato'', confidence = 0.54, sources = [''local_ml'']\<rparr>"
    by blast
  with out rounded nearest_exact show ?thesis by (simp add: exact_def)
qed

text \<open>
  C5. The merge output is sorted by confidence in descending order, and two output entries
  of equal confidence stand in the order in which their names were first encountered in the
  inputs (the local list, then the remote list).
\<close>

theorem merge_sorted_stable:
  fixes fl :: rounding and local_results openai_results :: "pyval list"
  defines "out \<equiv> merge_detection_results fl local_results openai_results"
  defines "order \<equiv> first_seen (map name_of local_results @ map name_of openai_results)"
  shows "descending out \<and>
    (\<forall>i j. i < j \<and> j < length out \<and> confidence (out ! i) = confidence (out ! j) \<longrightarrow>
       index_of (name (out ! i)) order < index_of (name (out ! j)) order)"
proof (cases fl local_results openai_results rule: merge_cases)
  case (failed e)
  then show ?thesis by (simp add: out_def descending_def)
next
  case (merged res)
  then obtain s where res: "res = merged_results fl s" and k: "keyed s"
    and keys: "map fst s = order"
    unfolding order_def by (auto elim: merge_body_scores)
  let ?ys = "filter (\<lambda>d. confidence d > fl 0.3) (map snd s)"
  have out: "out = by_confidence ?ys"
    using merged res by (simp add: out_def merged_results_def)
  have names: "map name (map snd s) = order"
    using k keys by (simp add: keyed_def comp_def)
  have "index_of (name (out ! i)) order < index_of (name (out ! j)) order"
    if "i < j" "j < length out" "confidence (out ! i) = confidence (out ! j)" for i j
  proof -
    have "subseq [out ! i, out ! j] ?ys"
      using that unfolding out by (rule by_confidence_stable)
    moreover have "subseq ?ys (map snd s)" by simp
    ultimately have "subseq [out ! i, out ! j] (map snd s)"
      by (rule subseq_order.trans)
    then have "subseq (map name [out ! i, out ! j]) (map name (map snd s))"
      by (rule subseq_map)
    with names have "subseq [name (out ! i), name (out ! j)] order" by simp
    moreover have "distinct order" by (simp add: order_def distinct_first_seen)
    ultimately show ?thesis by (simp add: subseq_index)
  qed
  moreover have "descending out" unfolding out by (rule descending_by_confidence)
  ultimately show ?thesis by blast
qed

theorem merge_sorted_stable_witness:
  "merge_detection_results exact
     [detection ''basil'' 0.9 ''local_ml'', detection ''Apple'' 0.9 ''local_ml'']
     [detection ''corn'' 0.95 ''openai_vision''] =
     [\<lparr>name = ''basil'', confidence = 0.54, sources = [''local_ml'']\<rparr>,
      \<lparr>name = ''apple'', confidence = 0.54, sources = [''local_ml'']\<rparr>,
      \<lparr>name = ''corn'', confidence = 0.38, sources = [''openai_vision'']\<rparr>] \<and>
   first_seen [''basil'', ''apple'', ''corn''] = [''basil'', ''apple'', ''corn''] \<and>
   index_of ''basil'' [''basil'', ''apple'', ''corn'']
     < index_of ''apple'' [''basil'', ''apple'', ''corn'']"
proof -
  let ?l = "[detection ''basil'' 0.9 ''local_ml'', detection ''Apple'' 0.9 ''local_ml'']"
  let ?r = "[detection ''corn'' 0.95 ''openai_vision'']"
  have out: "merge_detection_results exact ?l ?r =
     [\<lparr>name = ''basil'', confidence = 0.54, sources = [''local_ml'']\<rparr>,
      \<lparr>name = ''apple'', confidence = 0.54, sources = [''local_ml'']\<rparr>,
      \<lparr>name = ''corn'', confidence = 0.38, sources = [''openai_vision'']\<rparr>]"
    by (simp add: merge_eval)
  have names: "map name_of ?l @ map name_of ?r = [''basil'', ''apple'', ''corn'']"
    by (simp add: name_of_def merge_eval)
  have fs: "first_seen [''basil'', ''apple'', ''corn''] = [''basil'', ''apple'', ''corn'']"
    by (simp add: first_seen_def see_def)
  from merge_sorted_stable [of exact ?l ?r]
  have "\<forall>i j. i < j \<and> j < length (merge_detection_results exact ?l ?r) \<and>
      confidence (merge_detection_results exact ?l ?r ! i) = confidence (merge_detection_results exact ?l ?r ! j) \<longrightarrow>
       index_of (name (merge_detection_results exact ?l ?r ! i))
         (first_seen (map name_of ?l @ map name_of ?r))
       < index_of (name (merge_detection_results exact ?l ?r ! j))
         (first_seen (map name_of ?l @ map name_of ?r))"
    by blast
  then have "0 < (1::nat) \<and> 1 < length (merge_detection_results exact ?l ?r) \<and>
      confidence (merge_detection_results exact ?l ?r ! 0) = confidence (merge_detection_results exact ?l ?r ! 1) \<longrightarrow>
       index_of (name (merge_detection_results exact ?l ?r ! 0))
         (first_seen (map name_of ?l @ map name_of ?r))
       < index_of (name (merge_detection_results exact ?l ?r ! 1))
         (first_seen (map name_of ?l @ map name_of ?r))"
    by blast
  then have "index_of ''basil'' [''basil'', ''apple'', ''corn'']
     < index_of ''apple'' [''basil'', ''apple'', ''corn'']"
    unfolding out names fs by simp
  with out fs show ?thesis by blast
qed

text \<open>
  C2. The specification's example does not hold: local tomato 0.9 with remote tomato 0.8
  gives \<open>(0.54 + 0.32) * 1.2 = 1.032\<close>, capped to 1, not 0.8208.
\<close>

theorem merge_agreement_counterexample:
  "map confidence
     (merge_detection_results exact [detection ''tomato'' 0.9 ''local_ml'']
        [detection ''tomato'' 0.8 ''openai_vision'']) = [1] \<and>
   map confidence
     (merge_detection_results exact [detection ''tomato'' 0.9 ''local_ml'']
        [detection ''tomato'' 0.8 ''openai_vision'']) \<noteq> [0.8208]"
  by (simp add: merge_eval)

text \<open>
  C2, as the code has it. When no name occurs twice within one input list, every output
  entry carries the confidence of the weighting rule, computed in floats: the local
  confidence times 0.6 for a name found by the local detector only, the remote confidence
  times 0.4 for a name found by the remote detector only, and
  \<open>min ((local * 0.6 + remote * 0.4) * 1.2) 1\<close> with both detectors as sources for a name
  found by both. Local tomato 0.9 with remote tomato 0.8 yields confidence 1, in exact
  arithmetic and in every arithmetic that rounds to nearest.
\<close>

theorem merge_weighting_rule:
  assumes "distinct (map name_of local_results)" "distinct (map name_of openai_results)"
  shows "(\<forall>m \<in> set (merge_detection_results fl local_results openai_results).
      Some (confidence m) =
        spec_confidence fl (found_by fl local_results (name m)) (found_by fl openai_results (name m)) \<and>
      sources m =
        spec_sources (found_by fl local_results (name m)) (found_by fl openai_results (name m))) \<and>
    merge_detection_results exact [detection ''tomato'' 0.9 ''local_ml'']
        [detection ''tomato'' 0.8 ''openai_vision''] =
      [\<lparr>name = ''tomato'', confidence = 1, sources = [''local_ml'', ''openai_vision'']\<rparr>] \<and>
    (nearest fl \<longrightarrow>
       merge_detection_results fl [detection ''tomato'' (fl 0.9) ''local_ml'']
         [detection ''tomato'' (fl 0.8) ''openai_vision''] =
       [\<lparr>name = ''tomato'', confidence = 1, sources = [''local_ml'', ''openai_vision'']\<rparr>])"
proof (intro conjI)
  show "\<forall>m \<in> set (merge_detection_results fl local_results openai_results).
      Some (confidence m) =
        spec_confidence fl (found_by fl local_results (name m)) (found_by fl openai_results (name m)) \<and>
      sources m =
        spec_sources (found_by fl local_results (name m)) (found_by fl openai_results (name m))"
  proof (cases fl local_results openai_results rule: merge_cases)
    case (failed e)
    then show ?thesis by simp
  next
    case (merged out)
    have "Some (confidence m) =
        spec_confidence fl (found_by fl local_results (name m)) (found_by fl openai_results (name m)) \<and>
      sources m =
        spec_sources (found_by fl local_results (name m)) (found_by fl openai_results (name m))"
      if "m \<in> set out" for m
    proof -
      note eq = merge_body_map_of [OF merged(1) assms that]
      show ?thesis
      proof (cases "found_by fl local_results (name m)")
        case None
        note l = this
        show ?thesis
        proof (cases "found_by fl openai_results (name m)")
          case None
          with l eq show ?thesis by simp
        next
          case (Some rc)
          with l eq have "m = \<lparr>name = name m, confidence = fl (rc * fl 0.4),
                                sources = [''openai_vision'']\<rparr>" by simp
          then have "confidence m = fl (rc * fl 0.4)" "sources m = [''openai_vision'']"
            by (metis merged.select_convs)+
          with l Some show ?thesis by (simp add: spec_confidence_def spec_sources_def)
        qed
      next
        case (Some lc)
        note l = this
        show ?thesis
        proof (cases "found_by fl openai_results (name m)")
          case None
          with l eq have "m = \<lparr>name = name m, confidence = fl (lc * fl 0.6),
                                sources = [''local_ml'']\<rparr>" by simp
          then have "confidence m = fl (lc * fl 0.6)" "sources m = [''local_ml'']"
            by (metis merged.select_convs)+
          with l None show ?thesis by (simp add: spec_confidence_def spec_sources_def)
        next
          case (Some rc)
          with l eq have "m = \<lparr>name = name m,
                                confidence =
                                  min (fl (fl (fl (lc * fl 0.6) + fl (rc * fl 0.4)) * fl 1.2)) 1,
                                sources = [''local_ml'', ''openai_vision'']\<rparr>" by simp
          then have "confidence m =
              min (fl (fl (fl (lc * fl 0.6) + fl (rc * fl 0.4)) * fl 1.2)) 1"
            "sources m = [''local_ml'', ''openai_vision'']"
            by (metis merged.select_convs)+
          with l Some show ?thesis by (simp add: spec_confidence_def spec_sources_def)
        qed
      qed
    qed
    with merged show ?thesis by simp
  qed
  show "merge_detection_results exact [detection ''tomato'' 0.9 ''local_ml'']
        [detection ''tomato'' 0.8 ''openai_vision''] =
      [\<lparr>name = ''tomato'', confidence = 1, sources = [''local_ml'', ''openai_vision'']\<rparr>]"
    by (simp add: merge_eval)
  show "nearest fl \<longrightarrow>
       merge_detection_results fl [detection ''tomato'' (fl 0.9) ''local_ml'']
         [detection ''tomato'' (fl 0.8) ''openai_vision''] =
       [\<lparr>name = ''tomato'', confidence = 1, sources = [''local_ml'', ''openai_vision'']\<rparr>]"
    by (rule impI) (rule rounded_agreement)
qed

theorem merge_weighting_rule_witness:
  "distinct (map name_of [detection ''tomato'' 0.9 ''local_ml'', detection ''onion'' 0.8 ''local_ml'']) \<and>
   distinct (map name_of [detection ''Tomato'' 0.8 ''openai_vision'', detection ''corn'' 0.9 ''openai_vision'']) \<and>
   \<lparr>name = ''tomato'', confidence = 1, sources = [''local_ml'', ''openai_vision'']\<rparr>
     \<in> set (merge_detection_results exact
         [detection ''tomato'' 0.9 ''local_ml'', detection ''onion'' 0.8 ''local_ml'']
         [detection ''Tomato'' 0.8 ''openai_vision'', detection ''corn'' 0.9 ''openai_vision'']) \<and>
   spec_confidence exact
     (found_by exact [detection ''tomato'' 0.9 ''local_ml'', detection ''onion'' 0.8 ''local_ml''] ''tomato'')
     (found_by exact [detection ''Tomato'' 0.8 ''openai_vision'', detection ''corn'' 0.9 ''openai_vision''] ''tomato'')
     = Some 1 \<and>
   nearest exact \<and>
   merge_detection_results exact [detection ''tomato'' (exact 0.9) ''local_ml'']
     [detection ''tomato'' (exact 0.8) ''openai_vision''] =
   [\<lparr>name = ''tomato'', confidence = 1, sources = [''local_ml'', ''openai_vision'']\<rparr>]"
proof -
  let ?l = "[detection ''tomato'' 0.9 ''local_ml'', detection ''onion'' 0.8 ''local_ml'']"
  let ?r = "[detection ''Tomato'' 0.8 ''openai_vision'', detection ''corn'' 0.9 ''openai_vision'']"
  let ?m = "\<lparr>name = ''tomato'', confidence = 1, sources = [''local_ml'', ''openai_vision'']\<rparr>"
  have dl: "distinct (map name_of ?l)" by (simp add: name_of_def merge_eval)
  have dr: "distinct (map name_of ?r)" by (simp add: name_of_def merge_eval)
  have mem: "?m \<in> set (merge_detection_results exact ?l ?r)" by (simp add: merge_eval)
  from merge_weighting_rule [OF dl dr] mem
  have "Some (confidence ?m) = spec_confidence exact (found_by exact ?l (name ?m)) (found_by exact ?r (name ?m))"
    by blast
  then have "spec_confidence exact (found_by exact ?l ''tomato'') (found_by exact ?r ''tomato'') = Some 1"
    by simp
  moreover note merge_weighting_rule [OF dl dr, of exact, THEN conjunct2, THEN conjunct2,
      rule_format, OF nearest_exact]
  ultimately show ?thesis using dl dr mem nearest_exact by (intro conjI)
qed


text \<open>
  C6. One malformed entry does abort the merge: a local entry without a name beside a
  well-formed tomato gives the empty list, though the tomato alone is returned.
\<close>

theorem merge_malformed_counterexample:
  "merge_detection_results exact
     [detection ''tomato'' 0.9 ''local_ml'',
      PDict [(''confidence'', PFloat 0.8), (''source'', PStr ''local_ml'')]] [] = [] \<and>
   map name (merge_detection_results exact [detection ''tomato'' 0.9 ''local_ml''] []) =
     [''tomato'']"
  by (simp add: merge_eval)

text \<open>
  C6, as the code has it. The merger never raises: an exception of the body gives the empty
  list. An entry is malformed unless it is a dictionary with a string under \<^verbatim>\<open>name\<close> and,
  under \<^verbatim>\<open>confidence\<close>, a float, a boolean or an integer within the range of the floats. A
  malformed entry anywhere in either list empties the whole result, the well-formed entries
  of the batch included (a missing name and an integer confidence of \<open>10^400\<close> are
  instances); when all entries are well formed the body returns normally. An empty remote
  list leaves records of the local detector only, an empty local list records of the remote
  detector only.
\<close>

theorem merge_failure_semantics:
  "(\<forall>e. merge_body fl local_results openai_results = Inl e \<longrightarrow>
      merge_detection_results fl local_results openai_results = []) \<and>
   ((\<exists>e \<in> set (local_results @ openai_results). \<not> well_formed fl e) \<longrightarrow>
      merge_detection_results fl local_results openai_results = []) \<and>
   ((\<forall>e \<in> set (local_results @ openai_results). well_formed fl e) \<longrightarrow>
      merge_body fl local_results openai_results =
        Inr (merge_detection_results fl local_results openai_results)) \<and>
   (\<forall>m \<in> set (merge_detection_results fl local_results []). sources m = [''local_ml'']) \<and>
   (\<forall>m \<in> set (merge_detection_results fl [] openai_results).
      set (sources m) \<subseteq> {''openai_vision''}) \<and>
   (well_formed fl v \<longleftrightarrow>
      (\<exists>kvs s c. v = PDict kvs \<and> map_of kvs ''name'' = Some (PStr s) \<and>
         map_of kvs ''confidence'' = Some c \<and>
         ((\<exists>x. c = PFloat x) \<or> (\<exists>i. c = PInt i \<and> \<bar>i\<bar> < 2 ^ 1024 - 2 ^ 970) \<or>
          (\<exists>b. c = PBool b)))) \<and>
   merge_detection_results fl
     [detection ''tomato'' x ''local_ml'',
      PDict [(''confidence'', PFloat y), (''source'', PStr ''local_ml'')]] [] = [] \<and>
   merge_body fl
     [detection ''tomato'' x ''local_ml'',
      PDict [(''name'', PStr ''onion''), (''confidence'', PInt (10 ^ 400))]] []
     = Inl OverflowError \<and>
   merge_detection_results fl
     [detection ''tomato'' x ''local_ml'',
      PDict [(''name'', PStr ''onion''), (''confidence'', PInt (10 ^ 400))]] [] = [] \<and>
   (nearest fl \<longrightarrow>
      map name (merge_detection_results fl [detection ''tomato'' (fl 0.9) ''local_ml''] []) =
        [''tomato''])"
proof (intro conjI)
  show "\<forall>e. merge_body fl local_results openai_results = Inl e \<longrightarrow>
      merge_detection_results fl local_results openai_results = []"
    by (simp add: merge_detection_results_def)
  show "(\<exists>e \<in> set (local_results @ openai_results). \<not> well_formed fl e) \<longrightarrow>
      merge_detection_results fl local_results openai_results = []"
    using merge_body_fails [of fl local_results openai_results]
    by (cases "merge_body fl local_results openai_results")
       (auto simp: merge_detection_results_def)
  show "(\<forall>e \<in> set (local_results @ openai_results). well_formed fl e) \<longrightarrow>
      merge_body fl local_results openai_results =
        Inr (merge_detection_results fl local_results openai_results)"
    using merge_body_fails [of fl local_results openai_results]
    by (cases "merge_body fl local_results openai_results")
       (auto simp: merge_detection_results_def)
  show "\<forall>m \<in> set (merge_detection_results fl local_results []). sources m = [''local_ml'']"
  proof (cases fl local_results "[] :: pyval list" rule: merge_cases)
    case (failed e)
    then show ?thesis by simp
  next
    case (merged out)
    then obtain s1 where s1: "for_each (local_step fl) local_results [] = Inr s1"
      and out: "out = merged_results fl s1"
      by (auto simp: merge_body_def split: sum.splits)
    from s1 have "\<forall>d \<in> snd ` set s1. sources d = [''local_ml'']"
      by (rule local_loop_sources) simp
    with merged out show ?thesis by (auto simp: set_merged_results)
  qed
  show "\<forall>m \<in> set (merge_detection_results fl [] openai_results).
      set (sources m) \<subseteq> {''openai_vision''}"
  proof (cases fl "[] :: pyval list" openai_results rule: merge_cases)
    case (failed e)
    then show ?thesis by simp
  next
    case (merged out)
    then obtain s2 where s2: "for_each (openai_step fl) openai_results [] = Inr s2"
      and out: "out = merged_results fl s2"
      by (auto simp: merge_body_def split: sum.splits)
    from s2 have "\<forall>d \<in> snd ` set s2. set (sources d) \<subseteq> {''openai_vision''}"
      by (rule openai_loop_sources) simp
    with merged out show ?thesis by (auto simp: set_merged_results)
  qed
  show "well_formed fl v \<longleftrightarrow>
      (\<exists>kvs s c. v = PDict kvs \<and> map_of kvs ''name'' = Some (PStr s) \<and>
         map_of kvs ''confidence'' = Some c \<and>
         ((\<exists>x. c = PFloat x) \<or> (\<exists>i. c = PInt i \<and> \<bar>i\<bar> < 2 ^ 1024 - 2 ^ 970) \<or>
          (\<exists>b. c = PBool b)))"
    by (rule well_formed_shape)
  show "merge_detection_results fl
     [detection ''tomato'' x ''local_ml'',
      PDict [(''confidence'', PFloat y), (''source'', PStr ''local_ml'')]] [] = []"
    by (simp add: rounded_eval)
  show overflow: "merge_body fl
     [detection ''tomato'' x ''local_ml'',
      PDict [(''name'', PStr ''onion''), (''confidence'', PInt (10 ^ 400))]] []
     = Inl OverflowError"
    by (simp add: rounded_eval float_range_def)
  then show "merge_detection_results fl
     [detection ''tomato'' x ''local_ml'',
      PDict [(''name'', PStr ''onion''), (''confidence'', PInt (10 ^ 400))]] [] = []"
    by (simp add: merge_detection_results_def)
  show "nearest fl \<longrightarrow>
      map name (merge_detection_results fl [detection ''tomato'' (fl 0.9) ''local_ml''] []) =
        [''tomato'']"
    by (simp add: rounded_local_alone)
qed

theorem merge_failure_semantics_witness:
  "merge_body exact
     [detection ''tomato'' 0.9 ''local_ml'',
      PDict [(''confidence'', PFloat 0.8), (''source'', PStr ''local_ml'')]] [] = Inl KeyError \<and>
   \<not> well_formed exact (PDict [(''confidence'', PFloat 0.8), (''source'', PStr ''local_ml'')]) \<and>
   merge_detection_results exact
     [detection ''tomato'' 0.9 ''local_ml'',
      PDict [(''confidence'', PFloat 0.8), (''source'', PStr ''local_ml'')]] [] = [] \<and>
   \<not> well_formed exact (PDict [(''name'', PStr ''onion''), (''confidence'', PInt (10 ^ 400))]) \<and>
   well_formed exact (PDict [(''name'', PStr ''onion''), (''confidence'', PInt 1)]) \<and>
   well_formed exact (detection ''tomato'' 0.9 ''local_ml'') \<and>
   merge_body exact [detection ''tomato'' 0.9 ''local_ml''] [] =
     Inr (merge_detection_results exact [detection ''tomato'' 0.9 ''local_ml''] []) \<and>
   map sources (merge_detection_results exact [detection ''tomato'' 0.9 ''local_ml''] []) =
     [[''local_ml'']] \<and>
   well_formed exact (detection ''corn'' 0.9 ''openai_vision'') \<and>
   merge_body exact [] [detection ''corn'' 0.9 ''openai_vision''] =
     Inr (merge_detection_results exact [] [detection ''corn'' 0.9 ''openai_vision'']) \<and>
   map sources (merge_detection_results exact [] [detection ''corn'' 0.9 ''openai_vision'']) =
     [[''openai_vision'']] \<and>
   nearest exact \<and>
   map name (merge_detection_results exact [detection ''tomato'' (exact 0.9) ''local_ml''] []) =
     [''tomato'']"
proof -
  let ?bad = "PDict [(''confidence'', PFloat 0.8), (''source'', PStr ''local_ml'')]"
  let ?big = "PDict [(''name'', PStr ''onion''), (''confidence'', PInt (10 ^ 400))]"
  let ?one = "PDict [(''name'', PStr ''onion''), (''confidence'', PInt 1)]"
  let ?t = "detection ''tomato'' 0.9 ''local_ml''"
  let ?c = "detection ''corn'' 0.9 ''openai_vision''"
  note malformed_empties =
    merge_failure_semantics [THEN conjunct2, THEN conjunct1, rule_format]
  note well_formed_returns =
    merge_failure_semantics [THEN conjunct2, THEN conjunct2, THEN conjunct1, rule_format]
  note local_only_sources =
    merge_failure_semantics [THEN conjunct2, THEN conjunct2, THEN conjunct2, THEN conjunct1,
      rule_format]
  note remote_only_sources =
    merge_failure_semantics [THEN conjunct2, THEN conjunct2, THEN conjunct2, THEN conjunct2,
      THEN conjunct1, rule_format]
  note shape =
    merge_failure_semantics [THEN conjunct2, THEN conjunct2, THEN conjunct2, THEN conjunct2,
      THEN conjunct2, THEN conjunct1]
  note rounded =
    merge_failure_semantics [of exact, THEN conjunct2, THEN conjunct2, THEN conjunct2,
      THEN conjunct2, THEN conjunct2, THEN conjunct2, THEN conjunct2, THEN conjunct2,
      THEN conjunct2, rule_format, OF nearest_exact]
  have raised: "merge_body exact [?t, ?bad] [] = Inl KeyError"
    by (simp add: merge_eval)
  have bad: "\<not> well_formed exact ?bad"
    by (simp add: shape)
  have big: "\<not> well_formed exact ?big"
    by (simp add: shape)
  have one: "well_formed exact ?one"
    by (simp add: shape)
  have wt: "well_formed exact ?t"
    by (simp add: well_formed_def merge_eval)
  have wc: "well_formed exact ?c"
    by (simp add: well_formed_def merge_eval)
  have "\<exists>e \<in> set ([?t, ?bad] @ []). \<not> well_formed exact e"
    using bad by simp
  then have empty: "merge_detection_results exact [?t, ?bad] [] = []"
    by (rule malformed_empties)
  have local_only: "merge_body exact [?t] [] = Inr (merge_detection_results exact [?t] [])"
    by (rule well_formed_returns) (simp add: wt)
  have remote_only: "merge_body exact [] [?c] = Inr (merge_detection_results exact [] [?c])"
    by (rule well_formed_returns) (simp add: wc)
  have "length (merge_detection_results exact [?t] []) = 1"
    by (simp add: merge_eval)
  moreover have "\<forall>m \<in> set (merge_detection_results exact [?t] []). sources m = [''local_ml'']"
    by (intro ballI local_only_sources)
  ultimately have s1: "map sources (merge_detection_results exact [?t] []) = [[''local_ml'']]"
    by (cases "merge_detection_results exact [?t] []") simp_all
  have out_c: "map sources (merge_detection_results exact [] [?c]) = [[''openai_vision'']]"
    by (simp add: merge_eval)
  show ?thesis
    by (intro conjI)
       (fact raised bad empty big one wt local_only s1 wc remote_only out_c nearest_exact rounded)+
qed

text \<open>
  C8. Names are not trimmed: a local name with a leading blank and the same remote name
  without it stay two records.
\<close>

theorem merge_whitespace_counterexample:
  "map name
     (merge_detection_results exact [detection '' Tomato'' 0.9 ''local_ml'']
        [detection ''tomato'' 0.9 ''openai_vision'']) = ['' tomato'', ''tomato'']"
  by (simp add: merge_eval)

text \<open>
  C8, as the code has it. The merger keys each record by the lowercased name of an entry,
  white space included: every output name is the lowercased name of an input entry, no
  name occurs twice in the output, lowercasing keeps white-space characters, and two
  entries whose names differ only in case merge into one record.
\<close>

theorem merge_names_lowercased:
  "(\<forall>m \<in> set (merge_detection_results fl local_results openai_results).
      \<exists>e \<in> set (local_results @ openai_results). entry_name e = Inr (name m)) \<and>
   distinct (map name (merge_detection_results fl local_results openai_results)) \<and>
   entry_name (detection nm c src) = Inr (lower nm) \<and>
   (\<forall>ch. is_space ch \<longrightarrow> lower_char ch = ch) \<and>
   map name
     (merge_detection_results exact [detection ''Tomato'' 0.9 ''local_ml'']
        [detection ''TOMATO'' 0.8 ''openai_vision'']) = [''tomato'']"
proof (intro conjI)
  show "entry_name (detection nm c src) = Inr (lower nm)"
    by (simp add: entry_name_def detection_def)
  show "\<forall>ch. is_space ch \<longrightarrow> lower_char ch = ch"
    by (auto simp: is_space_def lower_char_def upper_letters_def lower_letters_def)
  show "map name
     (merge_detection_results exact [detection ''Tomato'' 0.9 ''local_ml'']
        [detection ''TOMATO'' 0.8 ''openai_vision'']) = [''tomato'']"
    by (simp add: merge_eval)
  show "\<forall>m \<in> set (merge_detection_results fl local_results openai_results).
      \<exists>e \<in> set (local_results @ openai_results). entry_name e = Inr (name m)"
  proof (cases fl local_results openai_results rule: merge_cases)
    case (failed e)
    then show ?thesis by simp
  next
    case (merged out)
    then obtain s where out: "out = merged_results fl s" and k: "keyed s"
      and keys: "map fst s = first_seen (map name_of local_results @ map name_of openai_results)"
      by (auto elim: merge_body_scores)
    from merged have "\<not> isl (merge_body fl local_results openai_results)" by simp
    then have wf: "\<forall>e \<in> set (local_results @ openai_results). well_formed fl e"
      by (simp add: merge_body_fails)
    have "\<exists>e \<in> set (local_results @ openai_results). entry_name e = Inr (name m)"
      if "m \<in> set out" for m
    proof -
      from that out obtain p where p: "p \<in> set s" "m = snd p"
        by (auto simp: set_merged_results)
      with k have "name m = fst p"
        by (metis keyed_def map_eq_conv)
      with p have "name m \<in> set (map fst s)" by simp
      with keys have "name m \<in> set (map name_of (local_results @ openai_results))"
        by (auto simp: first_seen_def set_fold_see)
      then obtain e where e: "e \<in> set (local_results @ openai_results)" "name_of e = name m"
        by (metis (no_types, lifting) imageE list.set_map)
      with wf have "entry_name e = Inr (name m)"
        using well_formed_reads(1) by fastforce
      with e show ?thesis by blast
    qed
    with merged show ?thesis by simp
  qed
  show "distinct (map name (merge_detection_results fl local_results openai_results))"
  proof (cases fl local_results openai_results rule: merge_cases)
    case (failed e)
    then show ?thesis by simp
  next
    case (merged out)
    then obtain s where out: "out = merged_results fl s" and k: "keyed s"
      and keys: "map fst s = first_seen (map name_of local_results @ map name_of openai_results)"
      by (auto elim: merge_body_scores)
    have "map name (map snd s) = map fst s"
      using k by (simp add: keyed_def comp_def)
    with keys have "distinct (map name (map snd s))"
      by (simp add: distinct_first_seen)
    then have "distinct (map name (filter (\<lambda>d. confidence d > fl 0.3) (map snd s)))"
      by (rule distinct_map_filter)
    then have "distinct (map name (merged_results fl s))"
      unfolding merged_results_def by (rule distinct_map_by_confidence)
    with merged out show ?thesis by simp
  qed
qed

theorem merge_names_lowercased_witness:
  "is_space CHR '' '' \<and> lower_char CHR '' '' = CHR '' '' \<and>
   \<lparr>name = '' tomato'', confidence = 0.54, sources = [''local_ml'']\<rparr>
     \<in> set (merge_detection_results exact [detection '' Tomato'' 0.9 ''local_ml''] []) \<and>
   entry_name (detection '' Tomato'' 0.9 ''local_ml'') = Inr '' tomato''"
proof -
  let ?e = "detection '' Tomato'' 0.9 ''local_ml''"
  let ?m = "\<lparr>name = '' tomato'', confidence = 0.54, sources = [''local_ml'']\<rparr>"
  have sp: "is_space CHR '' ''" by (simp add: is_space_def)
  with merge_names_lowercased [of exact "[]" "[]"] have keep: "lower_char CHR '' '' = CHR '' ''"
    by blast
  have mem: "?m \<in> set (merge_detection_results exact [?e] [])" by (simp add: merge_eval)
  with merge_names_lowercased [of exact "[?e]" "[]"]
  have "\<exists>e \<in> set ([?e] @ []). entry_name e = Inr (name ?m)" by blast
  then have "entry_name ?e = Inr '' tomato''" by simp
  with sp keep mem show ?thesis by blast
qed

section \<open>Properties of the upload route\<close>

lemma merge_confidence_above:
  assumes "m \<in> set (merge_detection_results fl l r)"
  shows "fl 0.3 < confidence m"
proof (cases fl l r rule: merge_cases)
  case (failed e)
  with assms show ?thesis by simp
next
  case (merged out)
  then obtain s where "out = merged_results fl s" by (auto elim: merge_body_scores)
  with merged assms show ?thesis by (simp add: set_merged_results)
qed

lemma unique_step_values:
  "snd ` set (unique_step x s) \<subseteq> insert x (snd ` set s)"
proof -
  have "snd ` set (AList.update k x s) \<subseteq> insert x (snd ` set s)" for k
    using set_update_subset [of k x s] by auto
  then show ?thesis
    by (auto simp: unique_step_def Let_def split: option.splits)
qed

lemma fold_unique_step_values:
  "snd ` set (fold unique_step xs s) \<subseteq> set xs \<union> snd ` set s"
proof (induction xs arbitrary: s)
  case Nil
  then show ?case by simp
next
  case (Cons x xs)
  have "snd ` set (fold unique_step xs (unique_step x s)) \<subseteq>
      set xs \<union> snd ` set (unique_step x s)"
    by (rule Cons.IH)
  with unique_step_values [of x s]
  have "snd ` set (fold unique_step xs (unique_step x s)) \<subseteq>
      insert x (set xs) \<union> snd ` set s"
    by blast
  then show ?case by simp
qed

lemma set_final_ingredients: "set (final_ingredients fl images) \<subseteq> set (all_ingredients fl images)"
  using fold_unique_step_values [of "all_ingredients fl images" "[]"]
  by (simp add: final_ingredients_def by_confidence_def)

lemma all_ingredients_merged:
  assumes "m \<in> set (all_ingredients fl images)"
  shows "\<exists>(l, r) \<in> set images. m \<in> set (merge_detection_results fl l r)"
  using assms by (auto simp: all_ingredients_def)

lemma descending_take: "descending xs \<Longrightarrow> descending (take n xs)"
  by (simp add: descending_def)

text \<open>
  C9. At most 20 ingredients are returned to the caller of the upload route: the response
  is the first 20 entries of the list that is obtained after merging, filtering (every
  entry comes from a merge and has a confidence above 0.3), removing duplicates and
  sorting by descending confidence.
\<close>

theorem upload_top_20:
  "length (upload_ingredients fl images) \<le> 20 \<and>
   upload_ingredients fl images = take 20 (final_ingredients fl images) \<and>
   descending (final_ingredients fl images) \<and>
   descending (upload_ingredients fl images) \<and>
   (\<forall>m \<in> set (final_ingredients fl images).
      fl 0.3 < confidence m \<and>
      (\<exists>(l, r) \<in> set images. m \<in> set (merge_detection_results fl l r)))"
proof (intro conjI)
  show "length (upload_ingredients fl images) \<le> 20"
    by (simp add: upload_ingredients_def)
  show "upload_ingredients fl images = take 20 (final_ingredients fl images)"
    by (simp add: upload_ingredients_def)
  show d: "descending (final_ingredients fl images)"
    unfolding final_ingredients_def by (rule descending_by_confidence)
  then show "descending (upload_ingredients fl images)"
    unfolding upload_ingredients_def by (rule descending_take)
  show "\<forall>m \<in> set (final_ingredients fl images).
      fl 0.3 < confidence m \<and>
      (\<exists>(l, r) \<in> set images. m \<in> set (merge_detection_results fl l r))"
  proof
    fix m assume "m \<in> set (final_ingredients fl images)"
    with set_final_ingredients have "m \<in> set (all_ingredients fl images)" by blast
    then have ex: "\<exists>(l, r) \<in> set images. m \<in> set (merge_detection_results fl l r)"
      by (rule all_ingredients_merged)
    then have "fl 0.3 < confidence m" by (auto dest: merge_confidence_above)
    with ex show "fl 0.3 < confidence m \<and>
      (\<exists>(l, r) \<in> set images. m \<in> set (merge_detection_results fl l r))" by blast
  qed
qed

theorem upload_top_20_witness:
  "\<lparr>name = ''a'', confidence = 0.54, sources = [''local_ml'']\<rparr>
     \<in> set (final_ingredients exact [(crowded, [])]) \<and>
   (0.3::real) < 0.54 \<and>
   length (final_ingredients exact [(crowded, [])]) = 21 \<and>
   length (upload_ingredients exact [(crowded, [])]) = 20"
proof -
  let ?m = "\<lparr>name = ''a'', confidence = 0.54, sources = [''local_ml'']\<rparr>"
  have mem: "?m \<in> set (final_ingredients exact [(crowded, [])])"
    by code_simp
  have len: "length (final_ingredients exact [(crowded, [])]) = 21"
    by code_simp
  note top = upload_top_20 [of exact "[(crowded, [])]"]
  from top mem have "exact 0.3 < confidence ?m" by blast
  then have above: "(0.3::real) < 0.54" by (simp add: exact_def)
  from top have "upload_ingredients exact [(crowded, [])] = take 20 (final_ingredients exact [(crowded, [])])"
    by blast
  with len have "length (upload_ingredients exact [(crowded, [])]) = 20" by simp
  with mem above len show ?thesis by blast
qed

section \<open>Properties of the rule-based fallback\<close>

lemmas fallback_eval =
  fallback_rule_based_recipe_def fallback_body_def recipes_table_def recipe_type_of_def
  request_for_def title_str_def is_cased_def upper_char_def lower_char_def
  upper_letters_def lower_letters_def

lemma recipe_type_of_cases:
  "recipe_type_of ingrs = ''grain_based'' \<or> recipe_type_of ingrs = ''protein_based'' \<or>
   recipe_type_of ingrs = ''vegetable_stir_fry''"
  by (simp add: recipe_type_of_def)

lemma recipes_table_nonempty:
  assumes "ingrs \<noteq> []"
  obtains table where "recipes_table ingrs = Inr table"
    "map fst table = [''grain_based'', ''protein_based'', ''vegetable_stir_fry'']"
  using assms by (cases ingrs) (auto simp: recipes_table_def)

lemma fallback_nonempty:
  assumes "ingredients request \<noteq> []"
  shows "\<exists>table. recipes_table (ingredients request) = Inr table \<and>
     map_of table (recipe_type_of (ingredients request)) = Some (fallback_rule_based_recipe request)"
proof -
  from assms obtain first rest where "ingredients request = first # rest"
    by (cases "ingredients request") auto
  then show ?thesis
    using recipe_type_of_cases [of "ingredients request"]
    by (auto simp: recipes_table_def fallback_rule_based_recipe_def fallback_body_def Let_def)
qed

text \<open>
  C4. For a request with at least one ingredient, the fallback returns the template of
  exactly one of three buckets, chosen in priority order: grain\_based if an ingredient is
  rice, pasta or noodles, else protein\_based if an ingredient is chicken, beef, fish,
  paneer or tofu, else vegetable\_stir\_fry. Rice and egg give a grain\_based recipe whose
  title starts with Rice, chicken and salt the protein\_based template, carrot and pepper
  the template titled Mixed Vegetable Stir Fry.
\<close>

theorem fallback_classification:
  assumes "ingredients request \<noteq> []"
  shows
   "(\<forall>e. generate_body lib completion = Inl e \<longrightarrow>
       generate_ai_recipe lib completion request = fallback_rule_based_recipe request) \<and>
    (\<exists>table. recipes_table (ingredients request) = Inr table \<and>
       map_of table (recipe_type_of (ingredients request)) =
         Some (fallback_rule_based_recipe request)) \<and>
    recipe_type_of (ingredients request) =
      (if ''rice'' \<in> set (ingredients request) \<or> ''pasta'' \<in> set (ingredients request) \<or>
          ''noodles'' \<in> set (ingredients request)
       then ''grain_based''
       else if ''chicken'' \<in> set (ingredients request) \<or> ''beef'' \<in> set (ingredients request) \<or>
          ''fish'' \<in> set (ingredients request) \<or> ''paneer'' \<in> set (ingredients request) \<or>
          ''tofu'' \<in> set (ingredients request)
       then ''protein_based''
       else ''vegetable_stir_fry'') \<and>
    recipe_type_of [''rice'', ''egg''] = ''grain_based'' \<and>
    take 4 (title (fallback_rule_based_recipe (request_for [''rice'', ''egg'']))) = ''Rice'' \<and>
    recipe_type_of [''chicken'', ''salt''] = ''protein_based'' \<and>
    title (fallback_rule_based_recipe (request_for [''chicken'', ''salt''])) =
      ''Simple Chicken Dish'' \<and>
    recipe_type_of [''carrot'', ''pepper''] = ''vegetable_stir_fry'' \<and>
    title (fallback_rule_based_recipe (request_for [''carrot'', ''pepper''])) =
      ''Mixed Vegetable Stir Fry''"
proof (intro conjI)
  show "\<forall>e. generate_body lib completion = Inl e \<longrightarrow>
       generate_ai_recipe lib completion request = fallback_rule_based_recipe request"
    by (simp add: generate_ai_recipe_def)
  show "\<exists>table. recipes_table (ingredients request) = Inr table \<and>
       map_of table (recipe_type_of (ingredients request)) =
         Some (fallback_rule_based_recipe request)"
    using assms by (rule fallback_nonempty)
  show "recipe_type_of (ingredients request) =
      (if ''rice'' \<in> set (ingredients request) \<or> ''pasta'' \<in> set (ingredients request) \<or>
          ''noodles'' \<in> set (ingredients request)
       then ''grain_based''
       else if ''chicken'' \<in> set (ingredients request) \<or> ''beef'' \<in> set (ingredients request) \<or>
          ''fish'' \<in> set (ingredients request) \<or> ''paneer'' \<in> set (ingredients request) \<or>
          ''tofu'' \<in> set (ingredients request)
       then ''protein_based''
       else ''vegetable_stir_fry'')"
    by (simp add: recipe_type_of_def)
  show "recipe_type_of [''rice'', ''egg''] = ''grain_based''"
    by (simp add: recipe_type_of_def)
  show "take 4 (title (fallback_rule_based_recipe (request_for [''rice'', ''egg'']))) = ''Rice''"
    by (simp add: fallback_eval)
  show "recipe_type_of [''chicken'', ''salt''] = ''protein_based''"
    by (simp add: recipe_type_of_def)
  show "title (fallback_rule_based_recipe (request_for [''chicken'', ''salt''])) =
      ''Simple Chicken Dish''"
    by (simp add: fallback_eval)
  show "recipe_type_of [''carrot'', ''pepper''] = ''vegetable_stir_fry''"
    by (simp add: recipe_type_of_def)
  show "title (fallback_rule_based_recipe (request_for [''carrot'', ''pepper''])) =
      ''Mixed Vegetable Stir Fry''"
    by (simp add: fallback_eval)
qed

theorem fallback_classification_witness:
  "ingredients (request_for [''egg'', ''rice'']) \<noteq> [] \<and>
   generate_body strict_library (Inl APIError) = Inl APIError \<and>
   generate_ai_recipe strict_library (Inl APIError) (request_for [''egg'', ''rice'']) =
     fallback_rule_based_recipe (request_for [''egg'', ''rice'']) \<and>
   recipe_type_of (ingredients (request_for [''egg'', ''rice''])) = ''grain_based'' \<and>
   title (fallback_rule_based_recipe (request_for [''egg'', ''rice''])) = ''Egg Bowl''"
proof -
  have ne: "ingredients (request_for [''egg'', ''rice'']) \<noteq> []"
    by (simp add: request_for_def)
  have raised: "generate_body strict_library (Inl APIError) = Inl APIError"
    by (simp add: generate_body_def)
  with fallback_classification [OF ne, of strict_library "Inl APIError"]
  have fb: "generate_ai_recipe strict_library (Inl APIError) (request_for [''egg'', ''rice'']) =
     fallback_rule_based_recipe (request_for [''egg'', ''rice''])"
    by blast
  from fallback_classification [OF ne]
  have "recipe_type_of (ingredients (request_for [''egg'', ''rice''])) =
      (if ''rice'' \<in> set (ingredients (request_for [''egg'', ''rice''])) \<or>
          ''pasta'' \<in> set (ingredients (request_for [''egg'', ''rice''])) \<or>
          ''noodles'' \<in> set (ingredients (request_for [''egg'', ''rice'']))
       then ''grain_based''
       else if ''chicken'' \<in> set (ingredients (request_for [''egg'', ''rice''])) \<or>
          ''beef'' \<in> set (ingredients (request_for [''egg'', ''rice''])) \<or>
          ''fish'' \<in> set (ingredients (request_for [''egg'', ''rice''])) \<or>
          ''paneer'' \<in> set (ingredients (request_for [''egg'', ''rice''])) \<or>
          ''tofu'' \<in> set (ingredients (request_for [''egg'', ''rice'']))
       then ''protein_based''
       else ''vegetable_stir_fry'')"
    by blast
  then have ty: "recipe_type_of (ingredients (request_for [''egg'', ''rice''])) = ''grain_based''"
    by (simp add: request_for_def)
  have "title (fallback_rule_based_recipe (request_for [''egg'', ''rice''])) = ''Egg Bowl''"
    by (simp add: fallback_eval)
  with ne raised fb ty show ?thesis by blast
qed

lemma fallback_body_fails: "isl (fallback_body request) \<longleftrightarrow> ingredients request = []"
  by (cases "ingredients request") (simp_all add: fallback_body_def recipes_table_def Let_def)

text \<open>
  C7. If the construction of the templates raises (which happens exactly when the list of
  ingredients is empty), the result is the hardcoded last-resort recipe: title Simple
  Ingredient Mix, three fixed steps, estimated time 20, difficulty easy, 4 servings.
\<close>

theorem fallback_last_resort:
  "(\<forall>e. fallback_body request = Inl e \<longrightarrow>
      fallback_rule_based_recipe request = absolute_fallback) \<and>
   (isl (fallback_body request) \<longleftrightarrow> ingredients request = []) \<and>
   title absolute_fallback = ''Simple Ingredient Mix'' \<and>
   steps absolute_fallback =
     [''Combine all available ingredients'', ''Cook with basic seasonings'',
      ''Adjust taste as needed''] \<and>
   length (steps absolute_fallback) = 3 \<and>
   estimated_time absolute_fallback = 20 \<and>
   difficulty absolute_fallback = ''easy'' \<and>
   servings absolute_fallback = 4"
  by (simp add: fallback_rule_based_recipe_def fallback_body_fails absolute_fallback_def)

theorem fallback_last_resort_witness:
  "fallback_body (request_for []) = Inl IndexError \<and>
   fallback_rule_based_recipe (request_for []) = absolute_fallback"
proof -
  have raised: "fallback_body (request_for []) = Inl IndexError"
    by (simp add: fallback_body_def recipes_table_def request_for_def)
  with fallback_last_resort [of "request_for []"]
  have "fallback_rule_based_recipe (request_for []) = absolute_fallback"
    by blast
  with raised show ?thesis by blast
qed

text \<open>
  C10. The classification compares whole ingredient strings with the keywords, not
  substrings: fried rice and chicken breast trigger neither the grain\_based nor the
  protein\_based bucket, and a request with only such names gets the vegetable stir fry.
\<close>

theorem fallback_exact_match:
  "(recipe_type_of ingrs = ''grain_based'' \<longleftrightarrow>
      (\<exists>x \<in> set ingrs. x = ''rice'' \<or> x = ''pasta'' \<or> x = ''noodles'')) \<and>
   (recipe_type_of ingrs = ''protein_based'' \<longleftrightarrow>
      \<not> (\<exists>x \<in> set ingrs. x = ''rice'' \<or> x = ''pasta'' \<or> x = ''noodles'') \<and>
      (\<exists>x \<in> set ingrs. x = ''chicken'' \<or> x = ''beef'' \<or> x = ''fish'' \<or>
                         x = ''paneer'' \<or> x = ''tofu'')) \<and>
   recipe_type_of [''fried rice'', ''chicken breast''] = ''vegetable_stir_fry'' \<and>
   title (fallback_rule_based_recipe (request_for [''fried rice'', ''chicken breast''])) =
     ''Mixed Vegetable Stir Fry''"
proof (intro conjI)
  show "recipe_type_of ingrs = ''grain_based'' \<longleftrightarrow>
      (\<exists>x \<in> set ingrs. x = ''rice'' \<or> x = ''pasta'' \<or> x = ''noodles'')"
    by (auto simp: recipe_type_of_def)
  show "recipe_type_of ingrs = ''protein_based'' \<longleftrightarrow>
      \<not> (\<exists>x \<in> set ingrs. x = ''rice'' \<or> x = ''pasta'' \<or> x = ''noodles'') \<and>
      (\<exists>x \<in> set ingrs. x = ''chicken'' \<or> x = ''beef'' \<or> x = ''fish'' \<or>
                         x = ''paneer'' \<or> x = ''tofu'')"
    by (auto simp: recipe_type_of_def)
  show "recipe_type_of [''fried rice'', ''chicken breast''] = ''vegetable_stir_fry''"
    by (simp add: recipe_type_of_def)
  show "title (fallback_rule_based_recipe (request_for [''fried rice'', ''chicken breast''])) =
     ''Mixed Vegetable Stir Fry''"
    by (simp add: fallback_eval)
qed

theorem fallback_exact_match_witness:
  "(\<exists>x \<in> set [''fried rice'', ''pasta'']. x = ''rice'' \<or> x = ''pasta'' \<or> x = ''noodles'') \<and>
   recipe_type_of [''fried rice'', ''pasta''] = ''grain_based''"
proof -
  have ex: "\<exists>x \<in> set [''fried rice'', ''pasta'']. x = ''rice'' \<or> x = ''pasta'' \<or> x = ''noodles''"
    by simp
  with fallback_exact_match [of "[''fried rice'', ''pasta'']"]
  have "recipe_type_of [''fried rice'', ''pasta''] = ''grain_based''"
    by blast
  with ex show ?thesis by blast
qed

section \<open>Properties of the recipe synthesizer\<close>

lemma absolute_fallback_valid: "recipe_valid absolute_fallback"
  by (simp add: recipe_valid_def absolute_fallback_def)

lemma fallback_valid: "recipe_valid (fallback_rule_based_recipe request)"
proof (cases "ingredients request")
  case Nil
  then have "fallback_rule_based_recipe request = absolute_fallback"
    by (simp add: fallback_rule_based_recipe_def fallback_body_def recipes_table_def)
  then show ?thesis by (simp add: absolute_fallback_valid)
next
  case (Cons first rest)
  then show ?thesis
    using recipe_type_of_cases [of "ingredients request"]
    by (auto simp: recipe_valid_def fallback_rule_based_recipe_def fallback_body_def
        recipes_table_def Let_def)
qed

lemma strip_empty_reply: "strip empty_reply = empty_reply"
  by (simp add: strip_def empty_reply_def quoted_def is_space_def)

lemma strip_code_fence_empty_reply: "strip_code_fence empty_reply = empty_reply"
  by (simp add: strip_code_fence_def startswith_def empty_reply_def quoted_def)

lemma generate_body_empty_reply:
  "generate_body strict_library (Inr empty_reply) =
     Inr \<lparr>title = [], steps = [], estimated_time = 0, difficulty = ''extreme'',
          tips = None, servings = 4\<rparr>"
  by (simp add: generate_body_def strip_empty_reply strip_code_fence_empty_reply
      strict_library_def empty_reply_data_def GeneratedRecipe_init_def validate_fields_def
      steps_validator_def strict_str_def strict_int_def)

text \<open>
  C1. The result is not always a valid recipe: a reply that is well-formed JSON with an
  empty title, no steps, time 0 and an unknown difficulty is accepted by the model, which
  declares no constraints, and returned as it is.
\<close>

theorem generate_invalid_counterexample:
  "ingredients (request_for [''tomato'']) \<noteq> [] \<and>
   \<not> recipe_valid (generate_ai_recipe strict_library (Inr empty_reply) (request_for [''tomato'']))"
  by (simp add: generate_ai_recipe_def generate_body_empty_reply recipe_valid_def request_for_def)

text \<open>
  C1, as the code has it. The synthesizer always returns a recipe. Whenever the
  generative attempt fails (the collaborator raises, the reply is not JSON, or the parsed
  data is rejected by the model, as when a required field is missing), the result is the
  rule-based recipe, which satisfies the invariants of a recipe: non-empty title, at least
  one step and no empty step, positive time and servings, difficulty easy, medium or hard.
  When the reply is accepted by the model, the recipe is returned as parsed.
\<close>

theorem generate_falls_back:
  "(\<forall>e. generate_body lib completion = Inl e \<longrightarrow>
      generate_ai_recipe lib completion request = fallback_rule_based_recipe request \<and>
      recipe_valid (generate_ai_recipe lib completion request)) \<and>
   (\<forall>r. generate_body lib completion = Inr r \<longrightarrow>
      generate_ai_recipe lib completion request = r) \<and>
   (\<forall>e. completion = Inl e \<longrightarrow> recipe_valid (generate_ai_recipe lib completion request)) \<and>
   (\<forall>content. completion = Inr content \<and>
      json_loads lib (strip_code_fence (strip content)) = None \<longrightarrow>
      recipe_valid (generate_ai_recipe lib completion request)) \<and>
   (\<forall>content recipe_data e. completion = Inr content \<and>
      json_loads lib (strip_code_fence (strip content)) = Some recipe_data \<and>
      GeneratedRecipe_init lib recipe_data = Inl e \<longrightarrow>
      recipe_valid (generate_ai_recipe lib completion request)) \<and>
   (map_of kw ''title'' = None \<or> map_of kw ''steps'' = None \<or>
    map_of kw ''estimated_time'' = None \<or> map_of kw ''difficulty'' = None \<longrightarrow>
      GeneratedRecipe_init lib (PDict kw) = Inl ValidationError)"
proof (intro conjI)
  show "\<forall>e. generate_body lib completion = Inl e \<longrightarrow>
      generate_ai_recipe lib completion request = fallback_rule_based_recipe request \<and>
      recipe_valid (generate_ai_recipe lib completion request)"
    by (simp add: generate_ai_recipe_def fallback_valid)
  show "\<forall>r. generate_body lib completion = Inr r \<longrightarrow>
      generate_ai_recipe lib completion request = r"
    by (simp add: generate_ai_recipe_def)
  show "\<forall>e. completion = Inl e \<longrightarrow> recipe_valid (generate_ai_recipe lib completion request)"
    by (simp add: generate_ai_recipe_def generate_body_def fallback_valid)
  show "\<forall>content. completion = Inr content \<and>
      json_loads lib (strip_code_fence (strip content)) = None \<longrightarrow>
      recipe_valid (generate_ai_recipe lib completion request)"
    by (simp add: generate_ai_recipe_def generate_body_def fallback_valid)
  show "\<forall>content recipe_data e. completion = Inr content \<and>
      json_loads lib (strip_code_fence (strip content)) = Some recipe_data \<and>
      GeneratedRecipe_init lib recipe_data = Inl e \<longrightarrow>
      recipe_valid (generate_ai_recipe lib completion request)"
    by (simp add: generate_ai_recipe_def generate_body_def fallback_valid)
  show "map_of kw ''title'' = None \<or> map_of kw ''steps'' = None \<or>
    map_of kw ''estimated_time'' = None \<or> map_of kw ''difficulty'' = None \<longrightarrow>
      GeneratedRecipe_init lib (PDict kw) = Inl ValidationError"
    by (auto simp: GeneratedRecipe_init_def validate_fields_def Option.bind_eq_None_conv
        split: option.splits)
qed

theorem generate_falls_back_witness:
  "generate_body strict_library (Inl APIError) = Inl APIError \<and>
   recipe_valid (generate_ai_recipe strict_library (Inl APIError) (request_for [''tomato''])) \<and>
   json_loads strict_library (strip_code_fence (strip ''no recipe today'')) = None \<and>
   recipe_valid (generate_ai_recipe strict_library (Inr ''no recipe today'') (request_for [''tomato''])) \<and>
   title (generate_ai_recipe strict_library (Inr ''no recipe today'') (request_for [''tomato'']))
     = ''Mixed Vegetable Stir Fry'' \<and>
   generate_body strict_library (Inr empty_reply) =
     Inr \<lparr>title = [], steps = [], estimated_time = 0, difficulty = ''extreme'',
          tips = None, servings = 4\<rparr> \<and>
   generate_ai_recipe strict_library (Inr empty_reply) (request_for [''tomato'']) =
     \<lparr>title = [], steps = [], estimated_time = 0, difficulty = ''extreme'',
      tips = None, servings = 4\<rparr> \<and>
   GeneratedRecipe_init strict_library (PDict [(''title'', PStr ''Soup'')]) = Inl ValidationError \<and>
   json_loads strict_library (strip_code_fence (strip ''```json{}```'')) = Some (PDict []) \<and>
   GeneratedRecipe_init strict_library (PDict []) = Inl ValidationError \<and>
   recipe_valid (generate_ai_recipe strict_library (Inr ''```json{}```'') (request_for [''tomato'']))"
proof -
  let ?req = "request_for [''tomato'']"
  have raised: "generate_body strict_library (Inl APIError) = Inl APIError"
    by (simp add: generate_body_def)
  with generate_falls_back [of strict_library "Inl APIError" ?req]
  have v1: "recipe_valid (generate_ai_recipe strict_library (Inl APIError) ?req)"
    by blast
  have nojson: "json_loads strict_library (strip_code_fence (strip ''no recipe today'')) = None"
    by (simp add: strict_library_def strip_def strip_code_fence_def startswith_def is_space_def
        empty_reply_def quoted_def)
  with generate_falls_back [of strict_library "Inr ''no recipe today''" ?req]
  have v2: "recipe_valid (generate_ai_recipe strict_library (Inr ''no recipe today'') ?req)"
    by blast
  from nojson have "generate_body strict_library (Inr ''no recipe today'') = Inl JSONDecodeError"
    by (simp add: generate_body_def)
  with generate_falls_back [of strict_library "Inr ''no recipe today''" ?req]
  have "generate_ai_recipe strict_library (Inr ''no recipe today'') ?req =
      fallback_rule_based_recipe ?req"
    by blast
  then have t: "title (generate_ai_recipe strict_library (Inr ''no recipe today'') ?req)
     = ''Mixed Vegetable Stir Fry''"
    by (simp add: fallback_eval)
  note parsed = generate_body_empty_reply
  with generate_falls_back [of strict_library "Inr empty_reply" ?req]
  have r: "generate_ai_recipe strict_library (Inr empty_reply) ?req =
     \<lparr>title = [], steps = [], estimated_time = 0, difficulty = ''extreme'',
      tips = None, servings = 4\<rparr>"
    by blast
  have "map_of [(''title'', PStr ''Soup'')] ''steps'' = None" by simp
  with generate_falls_back [of strict_library _ _ "[(''title'', PStr ''Soup'')]"]
  have m: "GeneratedRecipe_init strict_library (PDict [(''title'', PStr ''Soup'')])
      = Inl ValidationError"
    by blast
  have fenced: "json_loads strict_library (strip_code_fence (strip ''```json{}```'')) =
      Some (PDict [])"
    by (simp add: strict_library_def strip_def strip_code_fence_def startswith_def is_space_def
        slice_between_def empty_reply_def quoted_def)
  have rejected: "GeneratedRecipe_init strict_library (PDict []) = Inl ValidationError"
    by (simp add: GeneratedRecipe_init_def validate_fields_def)
  with fenced generate_falls_back [of strict_library "Inr ''```json{}```''" ?req]
  have v3: "recipe_valid (generate_ai_recipe strict_library (Inr ''```json{}```'') ?req)"
    by blast
  from raised v1 nojson v2 t parsed r m fenced rejected v3 show ?thesis by blast
qed

end
